theory Spec2Isabelle
  imports Main "HOL-Library.Word" "HOL-Library.AList" "HOL-Library.Signed_Division"
begin

section \<open>Data model of the relayed UDP connection (package client, UDPConn)\<close>

text \<open>
  The embedding follows \<^verbatim>\<open>src/examples/turn-server/log/main.go\<close>, second part
  (\<^verbatim>\<open>package client\<close>, lines 161-680). Every method of \<^verbatim>\<open>UDPConn\<close> becomes a function
  that takes the connection state and returns the Go return value, the updated state and
  the list of calls it made on its observer and its logger, in order. A nil-pointer
  dereference is the value \<open>Panic\<close>. The model is sequential: one method runs at a time, so
  the mutexes of the source are not represented.
\<close>

type_synonym bytes = "8 word list"

text \<open>\<^verbatim>\<open>time.Duration\<close> counts nanoseconds in 64 bits; the only arithmetic the source does
  on durations is a division by two. Two clocks are kept apart. \<open>time\<close> is a reading of the
  runtime's monotonic clock, the one timers run on: nanoseconds in 64 bits, from 0.
  \<^verbatim>\<open>time.Time\<close> is a wall-clock value: an instant, in nanoseconds since the zero instant
  (of any size: the present is beyond 64 bits), and a location; \<^verbatim>\<open>==\<close> on such values
  compares both, so the same instant in another location is a different value.\<close>

type_synonym duration = int
type_synonym time = int

record Time =
  instant :: int
  loc :: "string option"

definition MaxInt64 :: int where
  "MaxInt64 = 9223372036854775807"

definition MinInt64 :: int where
  "MinInt64 = - 9223372036854775808"

definition Second :: duration where
  "Second = 1000000000"

definition maxReadQueueSize :: nat where
  "maxReadQueueSize = 1024"

definition permRefreshInterval :: duration where
  "permRefreshInterval = 120 * Second"

definition timerIDRefreshAlloc :: int where
  "timerIDRefreshAlloc = 0"

definition timerIDRefreshPerms :: int where
  "timerIDRefreshPerms = 1"

definition noDeadline :: Time where
  "noDeadline = \<lparr>instant = 0, loc = None\<rparr>"

text \<open>\<^verbatim>\<open>net.Addr\<close>: the two concrete address types the source inspects, and any other.\<close>

datatype net_addr =
    UDPAddr string int
  | TCPAddr string int
  | OtherAddr string string

fun Network :: "net_addr \<Rightarrow> string" where
  "Network (UDPAddr ip port) = ''udp''"
| "Network (TCPAddr ip port) = ''tcp''"
| "Network (OtherAddr n s) = n"

fun is_UDPAddr :: "net_addr \<Rightarrow> bool" where
  "is_UDPAddr (UDPAddr ip port) = True"
| "is_UDPAddr (TCPAddr ip port) = False"
| "is_UDPAddr (OtherAddr n s) = False"

subsection \<open>STUN messages, as far as the connection looks into them\<close>

datatype stun_method =
    MethodSend | MethodCreatePermission | MethodChannelBind | MethodRefresh | MethodOther nat

datatype stun_class =
    ClassRequest | ClassIndication | ClassSuccessResponse | ClassErrorResponse

type_synonym message_type = "stun_method \<times> stun_class"

definition NewType :: "stun_method \<Rightarrow> stun_class \<Rightarrow> message_type" where
  "NewType m c = (m, c)"

datatype setter =
    TransactionID
  | SetType message_type
  | RequestedTransportUDP
  | Data bytes
  | PeerAddress string int
  | ChannelNumber "16 word"
  | Lifetime duration
  | SUsername string
  | SRealm string
  | SNonce string
  | SIntegrity string
  | ErrorCode nat string
  | Fingerprint

record message =
  Type :: message_type
  Attributes :: "setter list"
  Raw :: bytes

subsection \<open>Errors\<close>

datatype fmt_arg = ArgType message_type | ArgCode nat string | ArgStr string

datatype error =
    ErrShortBuffer
  | Errorf string "fmt_arg list"
  | timeoutError string
  | OpError string string net_addr error
  | ExternalError string

definition newTimeoutError :: "string \<Rightarrow> error" where
  "newTimeoutError msg = timeoutError msg"

text \<open>\<^verbatim>\<open>Timeout()\<close>: the source's \<^verbatim>\<open>timeoutError\<close> answers true (lines 678-680);
  \<^verbatim>\<open>net.OpError\<close> asks the error it wraps; the other errors have no such method.\<close>

fun Timeout :: "error \<Rightarrow> bool" where
  "Timeout (timeoutError msg) = True"
| "Timeout (OpError opn net a e) = Timeout e"
| "Timeout ErrShortBuffer = False"
| "Timeout (Errorf f args) = False"
| "Timeout (ExternalError s) = False"

datatype 'a outcome = Ret 'a | Panic string

definition nil_dereference :: string where
  "nil_dereference = ''invalid memory address or nil pointer dereference''"

subsection \<open>The observer and the message builder: the environment of a call\<close>

text \<open>Modelled from the spec: the type \<^verbatim>\<open>TransactionResult\<close> (section 6: what the
  transaction runner returns beside the error). The connection reads its field \<^verbatim>\<open>Msg\<close>
  only, a pointer to a message (it is passed on to \<^verbatim>\<open>GetFrom\<close>), nil being \<open>None\<close>.\<close>

record TransactionResult =
  Msg :: "message option"

text \<open>What the external collaborators answer during one call: \<^verbatim>\<open>stun.Build\<close>, the
  accessors and the two sending capabilities of \<^verbatim>\<open>UDPConnObserver\<close>,
  \<^verbatim>\<open>turn.ChannelData.Encode\<close>, and the wall clock \<^verbatim>\<open>time.Now()\<close>.\<close>

record env =
  time_Now :: Time
  stun_Build :: "setter list \<Rightarrow> error + message"
  obs_TURNServerAddr :: net_addr
  obs_Username :: string
  obs_Realm :: string
  obs_WriteTo :: "bytes \<Rightarrow> net_addr \<Rightarrow> int \<times> error option"
  obs_PerformTransaction :: "message \<Rightarrow> net_addr \<Rightarrow> bool \<Rightarrow> TransactionResult \<times> error option"
  chData_Encode :: "bytes \<Rightarrow> 16 word \<Rightarrow> bytes"

datatype log_level = LDebug | LWarn | LError

datatype event =
    EvTransaction message net_addr bool
  | EvWriteTo bytes net_addr
  | EvDeallocated net_addr
  | EvLog log_level string

text \<open>The two attribute readers of the STUN library the source calls on a response.\<close>

fun find_ErrorCode :: "setter list \<Rightarrow> (nat \<times> string) option" where
  "find_ErrorCode [] = None"
| "find_ErrorCode (ErrorCode n s # xs) = Some (n, s)"
| "find_ErrorCode (x # xs) = find_ErrorCode xs"

fun find_Lifetime :: "setter list \<Rightarrow> duration option" where
  "find_Lifetime [] = None"
| "find_Lifetime (Lifetime d # xs) = Some d"
| "find_Lifetime (x # xs) = find_Lifetime xs"

subsection \<open>Permission tracker\<close>

datatype perm_state = permStateIdle | permStatePermitted

text \<open>Modelled from the spec: the type \<^verbatim>\<open>permissionMap\<close> (section 4.1: find, insert,
  delete and the snapshot of all addresses, keyed by peer address with equality by value).
  A permission is its state; in a sequential run the object a write holds is the one in
  the map.\<close>

type_synonym permissionMap = "(net_addr \<times> perm_state) list"

definition newPermissionMap :: permissionMap where
  "newPermissionMap = []"

definition permMap_find :: "permissionMap \<Rightarrow> net_addr \<Rightarrow> perm_state option" where
  "permMap_find m a = map_of m a"

definition permMap_insert :: "permissionMap \<Rightarrow> net_addr \<Rightarrow> perm_state \<Rightarrow> permissionMap" where
  "permMap_insert m a p = AList.update a p m"

definition permMap_delete :: "permissionMap \<Rightarrow> net_addr \<Rightarrow> permissionMap" where
  "permMap_delete m a = AList.delete a m"

definition permMap_addrs :: "permissionMap \<Rightarrow> net_addr list" where
  "permMap_addrs m = map fst m"

subsection \<open>Binding tracker\<close>

datatype binding_state = bindingStateIdle | bindingStateReady | bindingStateFailed

record binding =
  b_addr :: net_addr
  b_number :: "16 word"
  b_state :: binding_state

text \<open>Modelled from the spec: the type \<^verbatim>\<open>bindingManager\<close> (section 4.2). The source holds
  bindings by pointer and changes their state through the pointer, also after the binding
  was deleted from the manager, so the bindings live in a store and both lookup tables
  hold references (indices) into it. \<open>create\<close> takes the least channel number of the
  reserved range 0x4000-0x7FFF that no registered binding uses; the spec does not say what
  happens when all are in use, the model then hands out 0x4000 again.\<close>

record bindingManager =
  store :: "binding list"
  addrMap :: "(net_addr \<times> nat) list"
  chanMap :: "(16 word \<times> nat) list"

definition newBindingManager :: bindingManager where
  "newBindingManager = \<lparr>store = [], addrMap = [], chanMap = []\<rparr>"

definition minChannelNumber :: nat where
  "minChannelNumber = 16384"

definition maxChannelNumber :: nat where
  "maxChannelNumber = 32767"

function assignChannelNumber :: "nat \<Rightarrow> 16 word list \<Rightarrow> 16 word" where
  "assignChannelNumber n used =
     (if maxChannelNumber < n then of_nat minChannelNumber
      else if of_nat n \<in> set used then assignChannelNumber (Suc n) used
      else of_nat n)"
  by pat_completeness auto
termination
  by (relation "measure (\<lambda>(n, used). Suc maxChannelNumber - n)") auto

declare assignChannelNumber.simps [simp del]

definition findByAddr :: "bindingManager \<Rightarrow> net_addr \<Rightarrow> nat option" where
  "findByAddr m a = map_of (addrMap m) a"

definition findByNumber :: "bindingManager \<Rightarrow> 16 word \<Rightarrow> nat option" where
  "findByNumber m n = map_of (chanMap m) n"

definition create :: "bindingManager \<Rightarrow> net_addr \<Rightarrow> nat \<times> bindingManager" where
  "create m a =
     (let n = assignChannelNumber minChannelNumber (map fst (chanMap m));
          r = length (store m)
      in (r, \<lparr>store = store m @ [\<lparr>b_addr = a, b_number = n, b_state = bindingStateIdle\<rparr>],
              addrMap = AList.update a r (addrMap m),
              chanMap = AList.update n r (chanMap m)\<rparr>))"

definition deleteByAddr :: "bindingManager \<Rightarrow> net_addr \<Rightarrow> bindingManager" where
  "deleteByAddr m a =
     (case findByAddr m a of
        None \<Rightarrow> m
      | Some r \<Rightarrow> m\<lparr>addrMap := AList.delete a (addrMap m),
                   chanMap := AList.delete (b_number (store m ! r)) (chanMap m)\<rparr>)"

definition setState :: "bindingManager \<Rightarrow> nat \<Rightarrow> binding_state \<Rightarrow> bindingManager" where
  "setState m r s = m\<lparr>store := (store m)[r := (store m ! r)\<lparr>b_state := s\<rparr>]\<rparr>"

subsection \<open>Timers\<close>

text \<open>\<^verbatim>\<open>time.Timer\<close> of the Go runtime: a pending expiry time on the monotonic clock and
  a channel \<^verbatim>\<open>C\<close>. \<open>fire\<close> delivers the tick once the expiry time has come; \<^verbatim>\<open>Reset(d)\<close>
  re-arms the timer \<open>d\<close> from now (at once when \<open>d \<le> 0\<close>, and at the end of the clock's
  range when the sum overflows) and discards a tick that was delivered and not yet
  received: after \<^verbatim>\<open>Reset\<close> the channel holds no value of the earlier setting.\<close>

record timer =
  t_expiry :: "time option"
  t_C :: bool

definition timer_when :: "time \<Rightarrow> duration \<Rightarrow> time" where
  "timer_when now d = (if d \<le> 0 then now else if MaxInt64 < now + d then MaxInt64 else now + d)"

definition fire :: "time \<Rightarrow> timer \<Rightarrow> timer" where
  "fire now tm =
     (case t_expiry tm of
        None \<Rightarrow> tm
      | Some w \<Rightarrow> if w \<le> now then tm\<lparr>t_expiry := None, t_C := True\<rparr> else tm)"

definition NewTimer :: "time \<Rightarrow> duration \<Rightarrow> timer" where
  "NewTimer now d = fire now \<lparr>t_expiry = Some (timer_when now d), t_C = False\<rparr>"

definition Reset :: "time \<Rightarrow> duration \<Rightarrow> timer \<Rightarrow> timer" where
  "Reset now d tm = fire now (tm\<lparr>t_expiry := Some (timer_when now d), t_C := False\<rparr>)"

text \<open>\<^verbatim>\<open>time.Until(t)\<close>: the difference of the instant of \<open>t\<close> to that of the wall clock,
  saturated to the range of a duration.\<close>

definition Until :: "Time \<Rightarrow> Time \<Rightarrow> duration" where
  "Until wall t = max MinInt64 (min MaxInt64 (instant t - instant wall))"

text \<open>Modelled from the spec: the type \<^verbatim>\<open>PeriodicTimer\<close> (section 4.3: a periodic task with
  an identity and a period, started and stopped, firing on its own cadence). The period is
  the duration the constructor was given. A started timer is due one period after its
  start and, each time it has fired, one period after it was last due.\<close>

record PeriodicTimer =
  pt_id :: int
  pt_interval :: duration
  pt_running :: bool
  pt_next :: time

definition NewPeriodicTimer :: "int \<Rightarrow> duration \<Rightarrow> PeriodicTimer" where
  "NewPeriodicTimer i d = \<lparr>pt_id = i, pt_interval = d, pt_running = False, pt_next = 0\<rparr>"

definition Start :: "time \<Rightarrow> PeriodicTimer \<Rightarrow> bool \<times> PeriodicTimer" where
  "Start now t =
     (if pt_running t then (False, t)
      else (True, t\<lparr>pt_running := True, pt_next := now + pt_interval t\<rparr>))"

definition pt_due :: "time \<Rightarrow> PeriodicTimer \<Rightarrow> bool" where
  "pt_due now t = (pt_running t \<and> pt_next t \<le> now)"

definition pt_fired :: "PeriodicTimer \<Rightarrow> PeriodicTimer" where
  "pt_fired t = t\<lparr>pt_next := pt_next t + pt_interval t\<rparr>"

definition Stop :: "PeriodicTimer \<Rightarrow> PeriodicTimer" where
  "Stop t = t\<lparr>pt_running := False\<rparr>"

subsection \<open>The connection\<close>

record inboundData =
  ib_data :: bytes
  ib_from :: net_addr

record UDPConnConfig =
  cfg_RelayedAddr :: net_addr
  cfg_Integrity :: string
  cfg_Nonce :: string
  cfg_Lifetime :: duration

text \<open>\<open>readCh\<close> is the buffered channel as a queue, oldest first; \<open>closeCh\<close> is true once
  the channel has been closed.\<close>

record UDPConn =
  relayedAddr :: net_addr
  permMap :: permissionMap
  bindingMgr :: bindingManager
  integrity :: string
  nonce :: string
  lifetime :: duration
  readCh :: "inboundData list"
  closeCh :: bool
  closed :: bool
  readTimer :: timer
  refreshAllocTimer :: PeriodicTimer
  refreshPermsTimer :: PeriodicTimer


section \<open>The methods of the connection\<close>

definition LocalAddr :: "UDPConn \<Rightarrow> net_addr" where
  "LocalAddr c = relayedAddr c"

definition NewUDPConn :: "time \<Rightarrow> UDPConnConfig \<Rightarrow> UDPConn \<times> event list" where
  "NewUDPConn now config =
     (let (s1, t1) = Start now (NewPeriodicTimer timerIDRefreshAlloc (cfg_Lifetime config sdiv 2));
          (s2, t2) = Start now (NewPeriodicTimer timerIDRefreshPerms permRefreshInterval)
      in (\<lparr>relayedAddr = cfg_RelayedAddr config,
           permMap = newPermissionMap,
           bindingMgr = newBindingManager,
           integrity = cfg_Integrity config,
           nonce = cfg_Nonce config,
           lifetime = cfg_Lifetime config,
           readCh = [],
           closeCh = False,
           closed = False,
           readTimer = NewTimer now MaxInt64,
           refreshAllocTimer = t1,
           refreshPermsTimer = t2\<rparr>,
          [EvLog LDebug ''initial lifetime: %d seconds'']
          @ (if s1 then [EvLog LDebug ''refreshAllocTimer started''] else [])
          @ (if s2 then [EvLog LDebug ''refreshPermsTimer started''] else [])))"

subsection \<open>ReadFrom\<close>

text \<open>Go's built-in \<^verbatim>\<open>copy(dst, src)\<close>: the number of bytes copied and the destination
  afterwards.\<close>

definition go_copy :: "bytes \<Rightarrow> bytes \<Rightarrow> nat \<times> bytes" where
  "go_copy dst src = (let n = min (length dst) (length src) in (n, take n src @ drop n dst))"

text \<open>The \<^verbatim>\<open>select\<close> of \<^verbatim>\<open>ReadFrom\<close> has three cases; which of the cases that can
  proceed is taken is the runtime's choice, an argument of the model. A case that cannot
  proceed at the time given leaves the call waiting: \<open>Blocked\<close>.\<close>

datatype select_case = SelReadCh | SelReadTimer | SelCloseCh

datatype read_result = Blocked | Returned int "net_addr option" "error option"

definition closedConnError :: "UDPConn \<Rightarrow> error" where
  "closedConnError c =
     OpError ''read'' (Network (LocalAddr c)) (LocalAddr c)
       (Errorf ''use of closed network connection'' [])"

definition ioTimeoutError :: "UDPConn \<Rightarrow> error" where
  "ioTimeoutError c =
     OpError ''read'' (Network (LocalAddr c)) (LocalAddr c) (newTimeoutError ''i/o timeout'')"

definition ReadFrom :: "time \<Rightarrow> select_case \<Rightarrow> bytes \<Rightarrow> UDPConn \<Rightarrow> read_result \<times> bytes \<times> UDPConn" where
  "ReadFrom now sel p c0 =
     (let c = c0\<lparr>readTimer := fire now (readTimer c0)\<rparr>
      in if closed c then (Returned 0 None (Some (closedConnError c)), p, c)
         else (case sel of
                 SelReadCh \<Rightarrow>
                   (case readCh c of
                      [] \<Rightarrow> (Blocked, p, c)
                    | ibData # q \<Rightarrow>
                        (let (n, p') = go_copy p (ib_data ibData);
                             c' = c\<lparr>readCh := q\<rparr>
                         in if n < length (ib_data ibData)
                            then (Returned 0 None (Some ErrShortBuffer), p', c')
                            else (Returned (int n) (Some (ib_from ibData)) None, p', c')))
               | SelReadTimer \<Rightarrow>
                   (if t_C (readTimer c)
                    then (Returned 0 None (Some (ioTimeoutError c)), p,
                          c\<lparr>readTimer := (readTimer c)\<lparr>t_C := False\<rparr>\<rparr>)
                    else (Blocked, p, c))
               | SelCloseCh \<Rightarrow>
                   (if closeCh c
                    then (Returned 0 None (Some (closedConnError c)), p, c\<lparr>closed := True\<rparr>)
                    else (Blocked, p, c))))"

subsection \<open>Control-plane exchanges\<close>

definition addr2PeerAddress :: "net_addr \<Rightarrow> setter" where
  "addr2PeerAddress a =
     (case a of
        UDPAddr ip port \<Rightarrow> PeerAddress ip port
      | TCPAddr ip port \<Rightarrow> PeerAddress ip port
      | OtherAddr n s \<Rightarrow> PeerAddress [] 0)"

definition createPermissions_setters :: "env \<Rightarrow> UDPConn \<Rightarrow> net_addr list \<Rightarrow> setter list" where
  "createPermissions_setters env c addrs =
     [TransactionID, SetType (NewType MethodCreatePermission ClassRequest), RequestedTransportUDP]
     @ map addr2PeerAddress addrs
     @ [SUsername (obs_Username env), SRealm (obs_Realm env), SNonce (nonce c),
        SIntegrity (integrity c), Fingerprint]"

definition createPermissions :: "env \<Rightarrow> UDPConn \<Rightarrow> net_addr list \<Rightarrow> error option outcome \<times> event list" where
  "createPermissions env c addrs =
     (case stun_Build env (createPermissions_setters env c addrs) of
        Inl err \<Rightarrow> (Ret (Some err), [])
      | Inr msg \<Rightarrow>
          (let (trRes, err) = obs_PerformTransaction env msg (obs_TURNServerAddr env) False;
               evs = [EvTransaction msg (obs_TURNServerAddr env) False]
           in case err of
                Some e \<Rightarrow> (Ret (Some e), evs)
              | None \<Rightarrow>
                  (case Msg trRes of
                     None \<Rightarrow> (Panic nil_dereference, evs)
                   | Some res \<Rightarrow>
                       if snd (Type res) = ClassErrorResponse
                       then (case find_ErrorCode (Attributes res) of
                               Some (n, s) \<Rightarrow>
                                 (Ret (Some (Errorf ''%s (error %s)'' [ArgType (Type res), ArgCode n s])), evs)
                             | None \<Rightarrow> (Ret (Some (Errorf ''%s'' [ArgType (Type res)])), evs))
                       else (Ret None, evs))))"

definition refreshAllocation_setters :: "duration \<Rightarrow> setter list" where
  "refreshAllocation_setters lt =
     [TransactionID, SetType (NewType MethodRefresh ClassRequest), RequestedTransportUDP,
      Lifetime lt, Fingerprint]"

definition refreshAllocation :: "env \<Rightarrow> duration \<Rightarrow> bool \<Rightarrow> UDPConn \<Rightarrow> unit outcome \<times> UDPConn \<times> event list" where
  "refreshAllocation env lt dontWait c =
     (case stun_Build env (refreshAllocation_setters lt) of
        Inl err \<Rightarrow> (Ret (), c, [EvLog LError ''failed to build refresh request: %s''])
      | Inr msg \<Rightarrow>
          (let (trRes, err) = obs_PerformTransaction env msg (obs_TURNServerAddr env) dontWait;
               evs = [EvTransaction msg (obs_TURNServerAddr env) dontWait]
           in case err of
                Some e \<Rightarrow> (Ret (), c, evs @ [EvLog LError ''failed to refresh refresh: %s''])
              | None \<Rightarrow>
                  if dontWait then (Ret (), c, evs)
                  else (case Msg trRes of
                          None \<Rightarrow> (Panic nil_dereference, c, evs)
                        | Some res \<Rightarrow>
                            (case find_Lifetime (Attributes res) of
                               None \<Rightarrow>
                                 (Ret (), c,
                                  evs @ [EvLog LError ''failed to get lifetime from refresh response: %s''])
                             | Some d \<Rightarrow>
                                 (Ret (), c\<lparr>lifetime := d\<rparr>,
                                  evs @ [EvLog LDebug ''updated lifetime: %d seconds''])))))"

definition refreshPermissions :: "env \<Rightarrow> UDPConn \<Rightarrow> unit outcome \<times> event list" where
  "refreshPermissions env c =
     (let addrs = permMap_addrs (permMap c)
      in if length addrs = 0 then (Ret (), [EvLog LDebug ''no permission to refresh''])
         else (case createPermissions env c addrs of
                 (Panic s, evs) \<Rightarrow> (Panic s, evs)
               | (Ret (Some err), evs) \<Rightarrow>
                   (Ret (), evs @ [EvLog LError ''fail to refresh permissions: %s''])
               | (Ret None, evs) \<Rightarrow>
                   (Ret (), evs @ [EvLog LDebug ''refresh permissions successful''])))"

definition onRefreshTimers :: "env \<Rightarrow> int \<Rightarrow> UDPConn \<Rightarrow> unit outcome \<times> UDPConn \<times> event list" where
  "onRefreshTimers env i c =
     (let lt = lifetime c;
          l = [EvLog LDebug ''refresh timer %d expired'']
      in if i = timerIDRefreshAlloc
         then (let (r, c', evs) = refreshAllocation env lt False c in (r, c', l @ evs))
         else if i = timerIDRefreshPerms
         then (let (r, evs) = refreshPermissions env c in (r, c, l @ evs))
         else (Ret (), c, l))"

definition bind_setters :: "env \<Rightarrow> UDPConn \<Rightarrow> binding \<Rightarrow> setter list" where
  "bind_setters env c b =
     [TransactionID, SetType (NewType MethodChannelBind ClassRequest), RequestedTransportUDP,
      addr2PeerAddress (b_addr b), ChannelNumber (b_number b),
      SUsername (obs_Username env), SRealm (obs_Realm env), SNonce (nonce c),
      SIntegrity (integrity c), Fingerprint]"

text \<open>\<open>bind\<close> takes the binding by reference. After a transaction error the source
  deletes the binding from the manager and goes on to read the response (lines 623-632).\<close>

definition bind :: "env \<Rightarrow> UDPConn \<Rightarrow> nat \<Rightarrow> error option outcome \<times> UDPConn \<times> event list" where
  "bind env c b =
     (let bd = store (bindingMgr c) ! b
      in case stun_Build env (bind_setters env c bd) of
           Inl err \<Rightarrow> (Ret (Some err), c, [])
         | Inr msg \<Rightarrow>
             (let (trRes, err) = obs_PerformTransaction env msg (obs_TURNServerAddr env) False;
                  evs = [EvTransaction msg (obs_TURNServerAddr env) False];
                  c1 = (if err \<noteq> None
                        then c\<lparr>bindingMgr := deleteByAddr (bindingMgr c) (b_addr bd)\<rparr>
                        else c)
              in case Msg trRes of
                   None \<Rightarrow> (Panic nil_dereference, c1, evs)
                 | Some res \<Rightarrow>
                     if Type res \<noteq> NewType MethodChannelBind ClassSuccessResponse
                     then (Ret (Some (Errorf ''unexpected response type %s'' [ArgType (Type res)])),
                           c1, evs)
                     else (Ret None, c1,
                           evs @ [EvLog LDebug ''channel binding successful: %s %d''])))"

definition sendChannelData :: "env \<Rightarrow> bytes \<Rightarrow> 16 word \<Rightarrow> (int \<times> error option) \<times> event list" where
  "sendChannelData env data chNum =
     (let raw = chData_Encode env data chNum
      in (obs_WriteTo env raw (obs_TURNServerAddr env), [EvWriteTo raw (obs_TURNServerAddr env)]))"


subsection \<open>WriteTo\<close>

text \<open>Lines 328-358: the permission for the destination, created on first use. The
  permission found or inserted is the one the function block works on.\<close>

definition WriteTo_permission :: "env \<Rightarrow> net_addr \<Rightarrow> UDPConn \<Rightarrow> error option outcome \<times> UDPConn \<times> event list" where
  "WriteTo_permission env a c =
     (let (perm, c1) =
            (case permMap_find (permMap c) a of
               Some s \<Rightarrow> (s, c)
             | None \<Rightarrow> (permStateIdle, c\<lparr>permMap := permMap_insert (permMap c) a permStateIdle\<rparr>))
      in if perm = permStateIdle
         then (case createPermissions env c1 [a] of
                 (Panic s, evs) \<Rightarrow> (Panic s, c1, evs)
               | (Ret (Some err), evs) \<Rightarrow>
                   (Ret (Some err), c1\<lparr>permMap := permMap_delete (permMap c1) a\<rparr>, evs)
               | (Ret None, evs) \<Rightarrow>
                   (Ret None, c1\<lparr>permMap := permMap_insert (permMap c1) a permStatePermitted\<rparr>, evs))
         else (Ret None, c1, []))"

text \<open>Lines 368-386: the function block that binds an idle binding.\<close>

definition WriteTo_bind :: "env \<Rightarrow> nat \<Rightarrow> UDPConn \<Rightarrow> unit outcome \<times> UDPConn \<times> event list" where
  "WriteTo_bind env b c =
     (if b_state (store (bindingMgr c) ! b) = bindingStateIdle
      then (case bind env c b of
              (Panic s, c1, evs) \<Rightarrow> (Panic s, c1, evs)
            | (Ret (Some err), c1, evs) \<Rightarrow>
                (Ret (), c1\<lparr>bindingMgr := setState (bindingMgr c1) b bindingStateFailed\<rparr>,
                 evs @ [EvLog LWarn ''bind() failed: %s''])
            | (Ret None, c1, evs) \<Rightarrow>
                (Ret (), c1\<lparr>bindingMgr := setState (bindingMgr c1) b bindingStateReady\<rparr>, evs))
      else (Ret (), c, []))"

definition indication_setters :: "bytes \<Rightarrow> net_addr \<Rightarrow> setter list" where
  "indication_setters p a =
     [TransactionID, SetType (NewType MethodSend ClassIndication), RequestedTransportUDP,
      Data p, addr2PeerAddress a, Fingerprint]"

text \<open>Lines 389-406: the payload in a send indication.\<close>

definition WriteTo_indication :: "env \<Rightarrow> bytes \<Rightarrow> net_addr \<Rightarrow> (int \<times> error option) \<times> event list" where
  "WriteTo_indication env p a =
     (case stun_Build env (indication_setters p a) of
        Inl err \<Rightarrow> ((0, Some err), [])
      | Inr msg \<Rightarrow>
          (obs_WriteTo env (Raw msg) (obs_TURNServerAddr env),
           [EvWriteTo (Raw msg) (obs_TURNServerAddr env)]))"

text \<open>Lines 360-410: the binding for the destination, created on first use and bound
  while idle; then the payload goes out as a send indication, or as channel data when the
  binding was ready on entry.\<close>

definition WriteTo_binding :: "net_addr \<Rightarrow> UDPConn \<Rightarrow> nat \<times> UDPConn" where
  "WriteTo_binding a c1 =
     (case findByAddr (bindingMgr c1) a of
        Some r \<Rightarrow> (r, c1)
      | None \<Rightarrow> (let (r, m) = create (bindingMgr c1) a in (r, c1\<lparr>bindingMgr := m\<rparr>)))"

definition WriteTo_send :: "env \<Rightarrow> bytes \<Rightarrow> net_addr \<Rightarrow> UDPConn \<Rightarrow> (int \<times> error option) outcome \<times> UDPConn \<times> event list" where
  "WriteTo_send env p a c1 =
     (let (b, c2) = WriteTo_binding a c1
      in if b_state (store (bindingMgr c2) ! b) \<noteq> bindingStateReady
         then (case (if b_state (store (bindingMgr c2) ! b) = bindingStateIdle
                     then WriteTo_bind env b c2 else (Ret (), c2, [])) of
                 (Panic s, c3, evs2) \<Rightarrow> (Panic s, c3, evs2)
               | (Ret u, c3, evs2) \<Rightarrow>
                   (let (r, evs3) = WriteTo_indication env p a
                    in (Ret r, c3, evs2 @ evs3)))
         else (let (r, evs3) = sendChannelData env p (b_number (store (bindingMgr c2) ! b))
               in (Ret r, c2, evs3)))"

definition WriteTo :: "env \<Rightarrow> bytes \<Rightarrow> net_addr \<Rightarrow> UDPConn \<Rightarrow> (int \<times> error option) outcome \<times> UDPConn \<times> event list" where
  "WriteTo env p a c =
     (if \<not> is_UDPAddr a then (Ret (0, Some (Errorf ''addr is not a net.UDPAddr'' [])), c, [])
      else (case WriteTo_permission env a c of
              (Panic s, c1, evs1) \<Rightarrow> (Panic s, c1, evs1)
            | (Ret (Some err), c1, evs1) \<Rightarrow> (Ret (0, Some err), c1, evs1)
            | (Ret None, c1, evs1) \<Rightarrow>
                (let (r, c3, evs2) = WriteTo_send env p a c1
                 in (r, c3, evs1 @ evs2))))"

subsection \<open>Close, deadlines, inbound data\<close>

definition Close :: "env \<Rightarrow> UDPConn \<Rightarrow> error option outcome \<times> UDPConn \<times> event list" where
  "Close env c0 =
     (let c = c0\<lparr>refreshAllocTimer := Stop (refreshAllocTimer c0),
                 refreshPermsTimer := Stop (refreshPermsTimer c0)\<rparr>
      in if closeCh c then (Ret (Some (Errorf ''already closed'' [])), c, [])
         else (case refreshAllocation env 0 True (c\<lparr>closeCh := True\<rparr>) of
                 (Panic s, c2, evs) \<Rightarrow> (Panic s, c2, evs)
               | (Ret u, c2, evs) \<Rightarrow> (Ret None, c2, evs @ [EvDeallocated (relayedAddr c2)])))"

definition SetReadDeadline :: "env \<Rightarrow> time \<Rightarrow> Time \<Rightarrow> UDPConn \<Rightarrow> error option \<times> UDPConn" where
  "SetReadDeadline env now t c =
     (let d = (if t = noDeadline then MaxInt64 else Until (time_Now env) t)
      in (None, c\<lparr>readTimer := Reset now d (readTimer c)\<rparr>))"

definition SetDeadline :: "env \<Rightarrow> time \<Rightarrow> Time \<Rightarrow> UDPConn \<Rightarrow> error option \<times> UDPConn" where
  "SetDeadline env now t c = SetReadDeadline env now t c"

definition SetWriteDeadline :: "Time \<Rightarrow> UDPConn \<Rightarrow> error option \<times> UDPConn" where
  "SetWriteDeadline t c = (None, c)"

definition HandleInbound :: "bytes \<Rightarrow> net_addr \<Rightarrow> UDPConn \<Rightarrow> UDPConn \<times> event list" where
  "HandleInbound dat frm c =
     (if length (readCh c) < maxReadQueueSize
      then (c\<lparr>readCh := readCh c @ [\<lparr>ib_data = dat, ib_from = frm\<rparr>]\<rparr>, [])
      else (c, [EvLog LWarn ''receive buffer full'']))"

definition FindAddrByChannelNumber :: "UDPConn \<Rightarrow> 16 word \<Rightarrow> net_addr option \<times> bool" where
  "FindAddrByChannelNumber c chNum =
     (case findByNumber (bindingMgr c) chNum of
        None \<Rightarrow> (None, False)
      | Some b \<Rightarrow> (Some (b_addr (store (bindingMgr c) ! b)), True))"

section \<open>Runs of the connection\<close>

text \<open>A run is a sequence of calls, each with the environment and the reading of the
  monotonic clock it meets. A refresh timer calls \<open>onRefreshTimers\<close> only when it is running
  and due, and is then due again one period later. A run goes on after a panic from the
  state the panicking call left (a caller may recover).\<close>

datatype call =
    CallWriteTo bytes net_addr
  | CallReadFrom select_case bytes
  | CallClose
  | CallSetDeadline Time
  | CallSetReadDeadline Time
  | CallSetWriteDeadline Time
  | CallHandleInbound bytes net_addr
  | CallTimer int

datatype response =
    RespWriteTo "(int \<times> error option) outcome"
  | RespReadFrom read_result bytes
  | RespClose "error option outcome"
  | RespError "error option"
  | RespTimer "unit outcome"
  | RespNone

definition timer_fires :: "env \<Rightarrow> time \<Rightarrow> int \<Rightarrow> UDPConn \<Rightarrow> response \<times> UDPConn \<times> event list" where
  "timer_fires env now i c =
     (if i = pt_id (refreshAllocTimer c) \<and> pt_due now (refreshAllocTimer c)
      then (let (r, c', evs) =
                  onRefreshTimers env i (c\<lparr>refreshAllocTimer := pt_fired (refreshAllocTimer c)\<rparr>)
            in (RespTimer r, c', evs))
      else if i = pt_id (refreshPermsTimer c) \<and> pt_due now (refreshPermsTimer c)
      then (let (r, c', evs) =
                  onRefreshTimers env i (c\<lparr>refreshPermsTimer := pt_fired (refreshPermsTimer c)\<rparr>)
            in (RespTimer r, c', evs))
      else (RespNone, c, []))"

fun step :: "env \<Rightarrow> time \<Rightarrow> call \<Rightarrow> UDPConn \<Rightarrow> response \<times> UDPConn \<times> event list" where
  "step env now (CallWriteTo p a) c = (let (r, c', evs) = WriteTo env p a c in (RespWriteTo r, c', evs))"
| "step env now (CallReadFrom sel p) c = (let (r, p', c') = ReadFrom now sel p c in (RespReadFrom r p', c', []))"
| "step env now CallClose c = (let (r, c', evs) = Close env c in (RespClose r, c', evs))"
| "step env now (CallSetDeadline t) c = (let (r, c') = SetDeadline env now t c in (RespError r, c', []))"
| "step env now (CallSetReadDeadline t) c = (let (r, c') = SetReadDeadline env now t c in (RespError r, c', []))"
| "step env now (CallSetWriteDeadline t) c = (let (r, c') = SetWriteDeadline t c in (RespError r, c', []))"
| "step env now (CallHandleInbound d f) c = (let (c', evs) = HandleInbound d f c in (RespNone, c', evs))"
| "step env now (CallTimer i) c = timer_fires env now i c"

fun run :: "(env \<times> time \<times> call) list \<Rightarrow> UDPConn \<Rightarrow> UDPConn \<times> (response \<times> event list) list" where
  "run [] c = (c, [])"
| "run ((env, now, x) # xs) c =
     (let (r, c', evs) = step env now x c;
          (c'', rs) = run xs c'
      in (c'', (r, evs) # rs))"

definition final :: "(env \<times> time \<times> call) list \<Rightarrow> UDPConn \<Rightarrow> UDPConn" where
  "final xs c = fst (run xs c)"


section \<open>Writers running concurrently\<close>

text \<open>Lines 328-358 of \<^verbatim>\<open>WriteTo\<close> when several goroutines run them at once. The permission
  map holds references: each \<^verbatim>\<open>&permission{}\<close> is a new object of the heap, of its own
  state and its own mutex, and the local variable \<^verbatim>\<open>perm\<close> of a goroutine refers to the
  object it found or to the one it made.

  Modelled from the spec: the type \<^verbatim>\<open>permission\<close> (section 3: a state, idle or permitted,
  and a serialization lock) and \<^verbatim>\<open>permissionMap\<close> (section 4.1: find, insert and delete by
  peer address; insert stores the permission it is given under the address).\<close>

record permission =
  perm_state :: perm_state
  perm_mutex :: bool

text \<open>Where a goroutine stands: before \<^verbatim>\<open>find\<close> (line 329), before making and inserting
  a permission (lines 331-332), before \<^verbatim>\<open>perm.mutex.Lock()\<close> (line 343), holding the
  lock before the check of the state (lines 346-353), before the deferred
  \<^verbatim>\<open>Unlock\<close> (line 344), and past the function block (line 356).\<close>

datatype writer_pc = AtFind | AtInsert | AtLock | AtCheck | AtUnlock | AtReturn

record writer =
  w_addr :: net_addr
  w_pc :: writer_pc
  w_perm :: nat
  w_err :: "error option outcome"

record writers =
  heap :: "permission list"
  perms :: "(net_addr \<times> nat) list"
  wire :: "event list"
  goroutines :: "writer list"

definition set_writer :: "nat \<Rightarrow> writer \<Rightarrow> writers \<Rightarrow> writers" where
  "set_writer i g s = s\<lparr>goroutines := (goroutines s)[i := g]\<rparr>"

text \<open>One step of goroutine \<open>i\<close>. A goroutine waiting for a mutex that is held, and one
  that has returned, do not move. The exchange of \<open>createPermissions\<close> is one step, taken
  with the lock held; the connection \<open>c\<close> gives the nonce and the integrity key.\<close>

definition writer_step :: "env \<Rightarrow> UDPConn \<Rightarrow> nat \<Rightarrow> writers \<Rightarrow> writers" where
  "writer_step env c i s =
     (if length (goroutines s) \<le> i then s
      else
        (let g = goroutines s ! i
         in case w_pc g of
              AtFind \<Rightarrow>
                (case map_of (perms s) (w_addr g) of
                   Some r \<Rightarrow> set_writer i (g\<lparr>w_perm := r, w_pc := AtLock\<rparr>) s
                 | None \<Rightarrow> set_writer i (g\<lparr>w_pc := AtInsert\<rparr>) s)
            | AtInsert \<Rightarrow>
                set_writer i (g\<lparr>w_perm := length (heap s), w_pc := AtLock\<rparr>)
                  (s\<lparr>heap := heap s @ [\<lparr>perm_state = permStateIdle, perm_mutex = False\<rparr>],
                     perms := AList.update (w_addr g) (length (heap s)) (perms s)\<rparr>)
            | AtLock \<Rightarrow>
                (if perm_mutex (heap s ! w_perm g) then s
                 else set_writer i (g\<lparr>w_pc := AtCheck\<rparr>)
                        (s\<lparr>heap := (heap s)[w_perm g := (heap s ! w_perm g)\<lparr>perm_mutex := True\<rparr>]\<rparr>))
            | AtCheck \<Rightarrow>
                (if perm_state (heap s ! w_perm g) = permStateIdle
                 then (case createPermissions env c [w_addr g] of
                         (Panic m, evs) \<Rightarrow>
                           set_writer i (g\<lparr>w_err := Panic m, w_pc := AtUnlock\<rparr>)
                             (s\<lparr>wire := wire s @ evs\<rparr>)
                       | (Ret (Some err), evs) \<Rightarrow>
                           set_writer i (g\<lparr>w_err := Ret (Some err), w_pc := AtUnlock\<rparr>)
                             (s\<lparr>wire := wire s @ evs,
                                perms := AList.delete (w_addr g) (perms s)\<rparr>)
                       | (Ret None, evs) \<Rightarrow>
                           set_writer i (g\<lparr>w_pc := AtUnlock\<rparr>)
                             (s\<lparr>wire := wire s @ evs,
                                heap := (heap s)[w_perm g :=
                                          (heap s ! w_perm g)\<lparr>perm_state := permStatePermitted\<rparr>]\<rparr>))
                 else set_writer i (g\<lparr>w_pc := AtUnlock\<rparr>) s)
            | AtUnlock \<Rightarrow>
                set_writer i (g\<lparr>w_pc := AtReturn\<rparr>)
                  (s\<lparr>heap := (heap s)[w_perm g := (heap s ! w_perm g)\<lparr>perm_mutex := False\<rparr>]\<rparr>)
            | AtReturn \<Rightarrow> s))"

text \<open>A schedule names the goroutine that takes each step.\<close>

fun writers_run :: "env \<Rightarrow> UDPConn \<Rightarrow> nat list \<Rightarrow> writers \<Rightarrow> writers" where
  "writers_run env c [] s = s"
| "writers_run env c (i # is) s = writers_run env c is (writer_step env c i s)"

text \<open>Two goroutines about to write to the same address, on a connection that has no
  permission yet.\<close>

definition new_writer :: "net_addr \<Rightarrow> writer" where
  "new_writer a = \<lparr>w_addr = a, w_pc = AtFind, w_perm = 0, w_err = Ret None\<rparr>"

definition two_writers :: "net_addr \<Rightarrow> writers" where
  "two_writers a = \<lparr>heap = [], perms = [], wire = [], goroutines = [new_writer a, new_writer a]\<rparr>"

definition one_after_the_other :: "nat list" where
  "one_after_the_other = [0, 0, 0, 0, 0, 1, 1, 1, 1]"

definition in_turns :: "nat list" where
  "in_turns = [0, 1, 0, 1, 0, 1, 0, 1, 0, 1]"


section \<open>Concrete collaborators, for evaluating the model\<close>

text \<open>A message builder that never fails and keeps the setters as the attributes, a
  transport that reports the length of what it was handed, a channel-data encoder with the
  four-byte header of the protocol, and transaction runners with chosen answers.\<close>

fun type_of_setters :: "setter list \<Rightarrow> message_type" where
  "type_of_setters [] = (MethodOther 0, ClassRequest)"
| "type_of_setters (SetType t # xs) = t"
| "type_of_setters (x # xs) = type_of_setters xs"

fun payload_of_setters :: "setter list \<Rightarrow> bytes" where
  "payload_of_setters [] = []"
| "payload_of_setters (Data p # xs) = p"
| "payload_of_setters (x # xs) = payload_of_setters xs"

definition demo_Build :: "setter list \<Rightarrow> error + message" where
  "demo_Build ss =
     Inr \<lparr>Type = type_of_setters ss, Attributes = ss,
          Raw = replicate 36 0 @ payload_of_setters ss\<rparr>"

definition demo_Encode :: "bytes \<Rightarrow> 16 word \<Rightarrow> bytes" where
  "demo_Encode d n = [ucast (drop_bit 8 n), ucast n, of_nat (length d div 256), of_nat (length d)] @ d"

definition demo_server :: net_addr where
  "demo_server = UDPAddr ''192.0.2.1'' 3478"

text \<open>A present-day reading of the wall clock, and a deadline five nanoseconds before
  it.\<close>

definition demo_now :: Time where
  "demo_now = \<lparr>instant = 63900000000000000000, loc = Some ''Local''\<rparr>"

definition demo_past :: Time where
  "demo_past = \<lparr>instant = 63899999999999999995, loc = Some ''Local''\<rparr>"

definition demo_env :: "(message \<Rightarrow> bool \<Rightarrow> TransactionResult \<times> error option) \<Rightarrow> env" where
  "demo_env tr =
     \<lparr>time_Now = demo_now,
      stun_Build = demo_Build,
      obs_TURNServerAddr = demo_server,
      obs_Username = ''user'',
      obs_Realm = ''pion.ly'',
      obs_WriteTo = (\<lambda>raw dst. (int (length raw), None)),
      obs_PerformTransaction = (\<lambda>msg dst dontWait. tr msg dontWait),
      chData_Encode = demo_Encode\<rparr>"

definition tr_reply :: "stun_class \<Rightarrow> duration \<Rightarrow> message \<Rightarrow> TransactionResult \<times> error option" where
  "tr_reply cl lt msg =
     (\<lparr>Msg = Some \<lparr>Type = (fst (Type msg), cl), Attributes = [Lifetime lt], Raw = []\<rparr>\<rparr>, None)"

definition tr_failure :: "TransactionResult \<times> error option" where
  "tr_failure = (\<lparr>Msg = None\<rparr>, Some (ExternalError ''all retransmissions failed''))"

text \<open>Every request is answered with a success response (lifetime 600 s); a
  fire-and-forget call returns at once with no response.\<close>

definition tr_success :: "message \<Rightarrow> bool \<Rightarrow> TransactionResult \<times> error option" where
  "tr_success msg dontWait =
     (if dontWait then (\<lparr>Msg = None\<rparr>, None) else tr_reply ClassSuccessResponse (600 * Second) msg)"

text \<open>The transaction of the given method fails in the runner (no response, an error).\<close>

definition tr_fail_on :: "stun_method \<Rightarrow> message \<Rightarrow> bool \<Rightarrow> TransactionResult \<times> error option" where
  "tr_fail_on m msg dontWait =
     (if fst (Type msg) = m then tr_failure else tr_success msg dontWait)"

text \<open>The request of the given method is answered with an error response.\<close>

definition tr_reject_on :: "stun_method \<Rightarrow> message \<Rightarrow> bool \<Rightarrow> TransactionResult \<times> error option" where
  "tr_reject_on m msg dontWait =
     (if fst (Type msg) = m then tr_reply ClassErrorResponse 0 msg else tr_success msg dontWait)"

text \<open>Refresh requests are answered with the lifetime given.\<close>

definition tr_lifetime :: "duration \<Rightarrow> message \<Rightarrow> bool \<Rightarrow> TransactionResult \<times> error option" where
  "tr_lifetime lt msg dontWait =
     (if dontWait then (\<lparr>Msg = None\<rparr>, None) else tr_reply ClassSuccessResponse lt msg)"

definition demo_config :: UDPConnConfig where
  "demo_config =
     \<lparr>cfg_RelayedAddr = UDPAddr ''198.51.100.7'' 50000,
      cfg_Integrity = ''key'',
      cfg_Nonce = ''nonce'',
      cfg_Lifetime = 600 * Second\<rparr>"

definition demo_conn :: UDPConn where
  "demo_conn = fst (NewUDPConn 0 demo_config)"

definition peerA :: net_addr where
  "peerA = UDPAddr ''203.0.113.5'' 4000"


text \<open>The fresh connection with one datagram of four bytes queued.\<close>

definition queued_conn :: UDPConn where
  "queued_conn = fst (HandleInbound [1, 2, 3, 4] peerA demo_conn)"

text \<open>The connection after a first write to \<open>peerA\<close> whose exchanges all succeeded.\<close>

definition bound_conn :: UDPConn where
  "bound_conn = fst (snd (WriteTo (demo_env tr_success) [1, 2, 3] peerA demo_conn))"

section \<open>Well-formed connections\<close>

text \<open>What every state reached through the methods satisfies: a reference registered
  for an address points into the store, at a binding of that address, the address is a
  UDP address, and the address has a granted permission.\<close>

definition mgr_wf :: "bindingManager \<Rightarrow> bool" where
  "mgr_wf m =
     (\<forall>a r. findByAddr m a = Some r \<longrightarrow>
        r < length (store m) \<and> b_addr (store m ! r) = a \<and> is_UDPAddr a)"

definition wf_conn :: "UDPConn \<Rightarrow> bool" where
  "wf_conn c =
     (mgr_wf (bindingMgr c)
      \<and> (\<forall>a r. findByAddr (bindingMgr c) a = Some r \<longrightarrow>
            permMap_find (permMap c) a = Some permStatePermitted))"

text \<open>The binding registered for address \<open>a\<close> is ready and has channel number \<open>n\<close>.\<close>

definition mgr_ready :: "bindingManager \<Rightarrow> net_addr \<Rightarrow> 16 word \<Rightarrow> bool" where
  "mgr_ready m a n =
     (case findByAddr m a of
        None \<Rightarrow> False
      | Some r \<Rightarrow> b_state (store m ! r) = bindingStateReady \<and> b_number (store m ! r) = n)"

definition binding_ready :: "UDPConn \<Rightarrow> net_addr \<Rightarrow> 16 word \<Rightarrow> bool" where
  "binding_ready c a n = mgr_ready (bindingMgr c) a n"

section \<open>Observing a run\<close>

text \<open>The notification of the owner, and a fire-and-forget transaction (the only one the
  source issues is the teardown refresh of \<open>Close\<close>).\<close>

fun is_dealloc :: "event \<Rightarrow> bool" where
  "is_dealloc (EvDeallocated a) = True"
| "is_dealloc (EvTransaction m d w) = False"
| "is_dealloc (EvWriteTo r d) = False"
| "is_dealloc (EvLog l s) = False"

fun is_teardown :: "event \<Rightarrow> bool" where
  "is_teardown (EvTransaction m d w) = w"
| "is_teardown (EvDeallocated a) = False"
| "is_teardown (EvWriteTo r d) = False"
| "is_teardown (EvLog l s) = False"

fun is_transaction :: "event \<Rightarrow> bool" where
  "is_transaction (EvTransaction m d w) = True"
| "is_transaction (EvDeallocated a) = False"
| "is_transaction (EvWriteTo r d) = False"
| "is_transaction (EvLog l s) = False"

fun is_CallClose :: "env \<times> time \<times> call \<Rightarrow> bool" where
  "is_CallClose (env, now, x) = (x = CallClose)"

definition closes :: "(env \<times> time \<times> call) list \<Rightarrow> nat" where
  "closes xs = length (filter is_CallClose xs)"

fun is_RespClose :: "response \<times> event list \<Rightarrow> bool" where
  "is_RespClose (RespClose r, evs) = True"
| "is_RespClose (RespWriteTo r, evs) = False"
| "is_RespClose (RespReadFrom r p, evs) = False"
| "is_RespClose (RespError r, evs) = False"
| "is_RespClose (RespTimer r, evs) = False"
| "is_RespClose (RespNone, evs) = False"

definition events_of :: "(response \<times> event list) list \<Rightarrow> event list" where
  "events_of rs = concat (map snd rs)"

definition already_closed :: error where
  "already_closed = Errorf ''already closed'' []"

text \<open>The environment the first call of Close in a run meets, if there is one.\<close>

fun first_close :: "(env \<times> time \<times> call) list \<Rightarrow> env option" where
  "first_close [] = None"
| "first_close ((env, now, x) # xs) = (if x = CallClose then Some env else first_close xs)"

text \<open>Events with neither a notification of the owner nor a fire-and-forget transaction.\<close>

definition quiet :: "event list \<Rightarrow> bool" where
  "quiet evs = (filter is_dealloc evs = [] \<and> filter is_teardown evs = [])"

text \<open>Runs used as concrete inputs: inbound data followed by three calls of Close; and
  the allocation-refresh timer firing once, the server answering with a lifetime of
  1200 s.\<close>

definition close_thrice :: "(env \<times> time \<times> call) list" where
  "close_thrice =
     [(demo_env tr_success, 0, CallHandleInbound [1] peerA),
      (demo_env tr_success, 1, CallClose),
      (demo_env tr_success, 2, CallClose),
      (demo_env tr_success, 3, CallClose)]"

definition refresh_longer :: "(env \<times> time \<times> call) list" where
  "refresh_longer =
     [(demo_env (tr_lifetime (1200 * Second)), 300 * Second, CallTimer timerIDRefreshAlloc)]"

text \<open>An environment whose message builder fails, and the teardown refresh request as
  the concrete builder makes it.\<close>

definition failing_Build_env :: env where
  "failing_Build_env =
     (demo_env tr_success)\<lparr>stun_Build := (\<lambda>ss. Inl (ExternalError ''crypto/rand: read failed''))\<rparr>"

definition demo_teardown_request :: message where
  "demo_teardown_request =
     \<lparr>Type = (MethodRefresh, ClassRequest),
      Attributes =
        [TransactionID, SetType (MethodRefresh, ClassRequest), RequestedTransportUDP,
         Lifetime 0, Fingerprint],
      Raw = replicate 36 0\<rparr>"

text \<open>The create-permission request of the fresh connection for \<open>peerA\<close>, as the concrete
  builder makes it.\<close>

definition demo_perm_request :: message where
  "demo_perm_request =
     \<lparr>Type = (MethodCreatePermission, ClassRequest),
      Attributes =
        [TransactionID, SetType (MethodCreatePermission, ClassRequest), RequestedTransportUDP,
         PeerAddress ''203.0.113.5'' 4000, SUsername ''user'', SRealm ''pion.ly'',
         SNonce ''nonce'', SIntegrity ''key'', Fingerprint],
      Raw = replicate 36 0\<rparr>"

text \<open>What no call changes of the two refresh timers: the identity and the period of the
  allocation timer, and the identity of the permission timer.\<close>

definition timers_like :: "UDPConn \<Rightarrow> UDPConn \<Rightarrow> bool" where
  "timers_like c' c =
     (pt_id (refreshAllocTimer c') = pt_id (refreshAllocTimer c)
      \<and> pt_interval (refreshAllocTimer c') = pt_interval (refreshAllocTimer c)
      \<and> pt_id (refreshPermsTimer c') = pt_id (refreshPermsTimer c))"

text \<open>The refresh request for the lifetime given, as the concrete builder makes it.\<close>

definition demo_refresh_request :: "duration \<Rightarrow> message" where
  "demo_refresh_request lt =
     \<lparr>Type = (MethodRefresh, ClassRequest),
      Attributes =
        [TransactionID, SetType (MethodRefresh, ClassRequest), RequestedTransportUDP,
         Lifetime lt, Fingerprint],
      Raw = replicate 36 0\<rparr>"

section \<open>Facts about the concrete states\<close>

lemma demo_conn_simps:
  "closed demo_conn = False"
  "closeCh demo_conn = False"
  "readCh demo_conn = []"
  "readTimer demo_conn = \<lparr>t_expiry = Some MaxInt64, t_C = False\<rparr>"
  "relayedAddr demo_conn = UDPAddr ''198.51.100.7'' 50000"
  "permMap demo_conn = []"
  "bindingMgr demo_conn = \<lparr>store = [], addrMap = [], chanMap = []\<rparr>"
  "lifetime demo_conn = 600 * Second"
  "nonce demo_conn = ''nonce''"
  "integrity demo_conn = ''key''"
  "refreshAllocTimer demo_conn =
     \<lparr>pt_id = 0, pt_interval = 300 * Second, pt_running = True, pt_next = 300 * Second\<rparr>"
  "refreshPermsTimer demo_conn =
     \<lparr>pt_id = 1, pt_interval = 120 * Second, pt_running = True, pt_next = 120 * Second\<rparr>"
  by (simp_all add: demo_conn_def NewUDPConn_def Start_def NewPeriodicTimer_def NewTimer_def
      fire_def timer_when_def MaxInt64_def demo_config_def newPermissionMap_def
      newBindingManager_def Second_def permRefreshInterval_def timerIDRefreshAlloc_def
      timerIDRefreshPerms_def signed_divide_int_def)

lemma queued_conn_simps:
  "closed queued_conn = False"
  "closeCh queued_conn = False"
  "readCh queued_conn = [\<lparr>ib_data = [1, 2, 3, 4], ib_from = peerA\<rparr>]"
  "readTimer queued_conn = \<lparr>t_expiry = Some MaxInt64, t_C = False\<rparr>"
  "relayedAddr queued_conn = UDPAddr ''198.51.100.7'' 50000"
  by (simp_all add: queued_conn_def HandleInbound_def demo_conn_simps maxReadQueueSize_def)

section \<open>ReadFrom and a buffer that is too small\<close>

text \<open>Claim C4. A call of \<open>ReadFrom\<close> on a connection not yet seen closed whose select takes
  a datagram from the read queue, the datagram being longer than the buffer \<open>p\<close>, returns
  the short-buffer error with byte count 0 and no address: the truncated copy is not
  reported as a successful read.\<close>

theorem ReadFrom_short_buffer:
  assumes "\<not> closed c" and "readCh c = ib # q" and "length p < length (ib_data ib)"
  shows "fst (ReadFrom now SelReadCh p c) = Returned 0 None (Some ErrShortBuffer)"
  using assms by (simp add: ReadFrom_def go_copy_def Let_def)

theorem ReadFrom_short_buffer_witness:
  "\<not> closed queued_conn
   \<and> readCh queued_conn = \<lparr>ib_data = [1, 2, 3, 4], ib_from = peerA\<rparr> # []
   \<and> length [0, 0 :: 8 word] < length (ib_data \<lparr>ib_data = [1, 2, 3, 4], ib_from = peerA\<rparr>)
   \<and> fst (ReadFrom 5 SelReadCh [0, 0] queued_conn) = Returned 0 None (Some ErrShortBuffer)"
  using ReadFrom_short_buffer [of queued_conn "\<lparr>ib_data = [1, 2, 3, 4], ib_from = peerA\<rparr>" "[]" "[0, 0]" 5]
  by (simp add: queued_conn_simps)

text \<open>Claim C5. The failing read is not atomic. In the same situation the datagram has
  left the read queue (the queue is its tail afterwards, nothing puts the datagram back),
  the caller's buffer holds the first \<open>length p\<close> bytes of the datagram, and the byte count
  returned is 0.\<close>

theorem ReadFrom_short_buffer_loses_datagram:
  assumes "\<not> closed c" and "readCh c = ib # q" and "length p < length (ib_data ib)"
  shows "ReadFrom now SelReadCh p c =
           (Returned 0 None (Some ErrShortBuffer),
            take (length p) (ib_data ib),
            c\<lparr>readTimer := fire now (readTimer c), readCh := q\<rparr>)"
  using assms by (simp add: ReadFrom_def go_copy_def Let_def min_def)

theorem ReadFrom_short_buffer_loses_datagram_witness:
  "\<not> closed queued_conn
   \<and> readCh queued_conn = \<lparr>ib_data = [1, 2, 3, 4], ib_from = peerA\<rparr> # []
   \<and> length [0, 0 :: 8 word] < length (ib_data \<lparr>ib_data = [1, 2, 3, 4], ib_from = peerA\<rparr>)
   \<and> fst (snd (ReadFrom 5 SelReadCh [0, 0] queued_conn)) = [1, 2]
   \<and> readCh (snd (snd (ReadFrom 5 SelReadCh [0, 0] queued_conn))) = []
   \<and> fst (ReadFrom 5 SelReadCh [9, 9, 9, 9, 9, 9]
            (snd (snd (ReadFrom 5 SelReadCh [0, 0] queued_conn)))) = Blocked"
  using ReadFrom_short_buffer_loses_datagram
          [of queued_conn "\<lparr>ib_data = [1, 2, 3, 4], ib_from = peerA\<rparr>" "[]" "[0, 0]" 5]
  by (simp add: queued_conn_simps ReadFrom_def fire_def MaxInt64_def)

lemmas demo_defs =
  demo_env_def demo_Build_def demo_server_def tr_fail_on_def tr_reject_on_def tr_success_def
  tr_reply_def tr_failure_def tr_lifetime_def peerA_def

lemmas WriteTo_defs =
  WriteTo_def WriteTo_send_def WriteTo_binding_def WriteTo_permission_def WriteTo_bind_def WriteTo_indication_def
  bind_def createPermissions_def sendChannelData_def createPermissions_setters_def
  bind_setters_def indication_setters_def NewType_def permMap_find_def permMap_insert_def
  permMap_delete_def findByAddr_def create_def deleteByAddr_def setState_def
  addr2PeerAddress_def assignChannelNumber.simps minChannelNumber_def maxChannelNumber_def

lemma bound_conn_simps:
  "permMap bound_conn = [(peerA, permStatePermitted)]"
  "bindingMgr bound_conn =
     \<lparr>store = [\<lparr>b_addr = peerA, b_number = 16384, b_state = bindingStateReady\<rparr>],
      addrMap = [(peerA, 0)], chanMap = [(16384, 0)]\<rparr>"
  "closeCh bound_conn = False"
  "closed bound_conn = False"
  "nonce bound_conn = ''nonce''"
  "integrity bound_conn = ''key''"
  by (simp_all add: bound_conn_def WriteTo_defs demo_defs demo_conn_simps)

section \<open>WriteTo: the permission\<close>

lemma createPermissions_permMap [simp]:
  "createPermissions env (c\<lparr>permMap := m\<rparr>) addrs = createPermissions env c addrs"
  by (simp add: createPermissions_def createPermissions_setters_def)

lemma createPermissions_events:
  "snd (createPermissions env c addrs) =
     (case stun_Build env (createPermissions_setters env c addrs) of
        Inl e \<Rightarrow> []
      | Inr msg \<Rightarrow> [EvTransaction msg (obs_TURNServerAddr env) False])"
  by (simp add: createPermissions_def Let_def split: sum.splits prod.splits option.splits)

lemma WriteTo_permission_events:
  assumes "permMap_find (permMap c) a = None \<or> permMap_find (permMap c) a = Some permStateIdle"
  shows "snd (snd (WriteTo_permission env a c)) = snd (createPermissions env c [a])"
  using assms
  by (auto simp add: WriteTo_permission_def split: prod.splits outcome.splits option.splits)

lemma WriteTo_events_prefix:
  assumes "is_UDPAddr a"
  shows "\<exists>rest. snd (snd (WriteTo env p a c)) = snd (snd (WriteTo_permission env a c)) @ rest"
proof -
  obtain r c1 evs where w: "WriteTo_permission env a c = (r, c1, evs)"
    by (cases "WriteTo_permission env a c") auto
  obtain r2 c3 evs2 where s: "WriteTo_send env p a c1 = (r2, c3, evs2)"
    by (cases "WriteTo_send env p a c1") auto
  show ?thesis
    using assms w s by (simp add: WriteTo_def split: outcome.splits option.splits)
qed

lemma WriteTo_permission_fails:
  assumes "permMap_find (permMap c) a = None \<or> permMap_find (permMap c) a = Some permStateIdle"
    and "fst (createPermissions env c [a]) = Ret (Some err)"
  shows "fst (WriteTo_permission env a c) = Ret (Some err)"
    and "permMap_find (permMap (fst (snd (WriteTo_permission env a c)))) a = None"
    and "bindingMgr (fst (snd (WriteTo_permission env a c))) = bindingMgr c"
  using assms
  by (auto simp add: WriteTo_permission_def permMap_find_def permMap_delete_def permMap_insert_def
      delete_conv' split: prod.splits outcome.splits option.splits)

lemma WriteTo_after_permission_error:
  assumes "is_UDPAddr a" and "fst (WriteTo_permission env a c) = Ret (Some err)"
  shows "WriteTo env p a c = (Ret (0, Some err), snd (WriteTo_permission env a c))"
proof -
  obtain r c1 evs where w: "WriteTo_permission env a c = (r, c1, evs)"
    by (cases "WriteTo_permission env a c") auto
  show ?thesis
    using assms w by (simp add: WriteTo_def)
qed

lemma createPermissions_setters_single:
  "createPermissions_setters env c [a] =
     [TransactionID, SetType (MethodCreatePermission, ClassRequest), RequestedTransportUDP,
      addr2PeerAddress a, SUsername (obs_Username env), SRealm (obs_Realm env), SNonce (nonce c),
      SIntegrity (integrity c), Fingerprint]"
  by (simp add: createPermissions_setters_def NewType_def)

lemma createPermissions_runner_error:
  assumes "stun_Build env (createPermissions_setters env c addrs) = Inr msg"
    and "obs_PerformTransaction env msg (obs_TURNServerAddr env) False = (tr, Some err)"
  shows "createPermissions env c addrs
           = (Ret (Some err), [EvTransaction msg (obs_TURNServerAddr env) False])"
  using assms by (simp add: createPermissions_def Let_def)

lemma createPermissions_error_response:
  assumes "stun_Build env (createPermissions_setters env c addrs) = Inr msg"
    and "obs_PerformTransaction env msg (obs_TURNServerAddr env) False = (tr, None)"
    and "Msg tr = Some res"
    and "snd (Type res) = ClassErrorResponse"
  shows "createPermissions env c addrs
           = (Ret (Some (case find_ErrorCode (Attributes res) of
                           Some (n, s) \<Rightarrow> Errorf ''%s (error %s)'' [ArgType (Type res), ArgCode n s]
                         | None \<Rightarrow> Errorf ''%s'' [ArgType (Type res)])),
              [EvTransaction msg (obs_TURNServerAddr env) False])"
  using assms by (simp add: createPermissions_def Let_def split: option.splits)

lemma WriteTo_permission_failed:
  assumes "permMap_find (permMap c) a = None \<or> permMap_find (permMap c) a = Some permStateIdle"
    and "createPermissions env c [a] = (Ret (Some err), evs)"
  shows "WriteTo_permission env a c
           = (Ret (Some err), c\<lparr>permMap := permMap_delete (permMap c) a\<rparr>, evs)"
  using assms
  by (auto simp add: WriteTo_permission_def permMap_find_def permMap_delete_def permMap_insert_def
      delete_update_same)

text \<open>Claim C2. A write to a UDP address whose permission is absent or idle runs the
  create-permission exchange for that address. When the exchange fails, the transaction
  runner returning an error or the server answering with an error response, \<open>WriteTo\<close>
  aborts: it returns \<open>(0, err)\<close> with that error (for an error response, the error made from
  the response), it has performed the create-permission transaction and nothing else (no
  channel bind, nothing handed to the transport, nothing logged), and the connection is
  as before except that the permission map has no entry for the address. A later \<open>WriteTo\<close>
  to the address, in whatever environment, starts with a create-permission transaction
  again (given that its request can be built).\<close>

theorem WriteTo_permission_failure_aborts:
  assumes "is_UDPAddr a"
    and "permMap_find (permMap c) a = None \<or> permMap_find (permMap c) a = Some permStateIdle"
    and "stun_Build env
           [TransactionID, SetType (MethodCreatePermission, ClassRequest), RequestedTransportUDP,
            addr2PeerAddress a, SUsername (obs_Username env), SRealm (obs_Realm env),
            SNonce (nonce c), SIntegrity (integrity c), Fingerprint] = Inr msg"
    and "obs_PerformTransaction env msg (obs_TURNServerAddr env) False = (tr, e)"
    and "e = Some err
         \<or> (e = None
             \<and> (\<exists>res. Msg tr = Some res \<and> snd (Type res) = ClassErrorResponse
                   \<and> err = (case find_ErrorCode (Attributes res) of
                              Some (n, s) \<Rightarrow>
                                Errorf ''%s (error %s)'' [ArgType (Type res), ArgCode n s]
                            | None \<Rightarrow> Errorf ''%s'' [ArgType (Type res)])))"
  shows "WriteTo env p a c
           = (Ret (0, Some err), c\<lparr>permMap := permMap_delete (permMap c) a\<rparr>,
              [EvTransaction msg (obs_TURNServerAddr env) False])
       \<and> permMap_find (permMap_delete (permMap c) a) a = None
       \<and> (\<forall>env' p' msg'.
             stun_Build env'
               [TransactionID, SetType (MethodCreatePermission, ClassRequest),
                RequestedTransportUDP, addr2PeerAddress a, SUsername (obs_Username env'),
                SRealm (obs_Realm env'), SNonce (nonce c), SIntegrity (integrity c), Fingerprint]
               = Inr msg'
             \<longrightarrow> (\<exists>rest. snd (snd (WriteTo env' p' a (c\<lparr>permMap := permMap_delete (permMap c) a\<rparr>)))
                          = EvTransaction msg' (obs_TURNServerAddr env') False # rest))"
proof -
  let ?c' = "c\<lparr>permMap := permMap_delete (permMap c) a\<rparr>"
  have b: "stun_Build env (createPermissions_setters env c [a]) = Inr msg"
    using assms(3) by (simp add: createPermissions_setters_single)
  have cp: "createPermissions env c [a]
              = (Ret (Some err), [EvTransaction msg (obs_TURNServerAddr env) False])"
    using assms(5)
  proof
    assume "e = Some err"
    with createPermissions_runner_error [OF b] assms(4) show ?thesis by simp
  next
    assume "e = None
             \<and> (\<exists>res. Msg tr = Some res \<and> snd (Type res) = ClassErrorResponse
                   \<and> err = (case find_ErrorCode (Attributes res) of
                              Some (n, s) \<Rightarrow>
                                Errorf ''%s (error %s)'' [ArgType (Type res), ArgCode n s]
                            | None \<Rightarrow> Errorf ''%s'' [ArgType (Type res)]))"
    then obtain res where "e = None" "Msg tr = Some res" "snd (Type res) = ClassErrorResponse"
      and "err = (case find_ErrorCode (Attributes res) of
                              Some (n, s) \<Rightarrow>
                                Errorf ''%s (error %s)'' [ArgType (Type res), ArgCode n s]
                            | None \<Rightarrow> Errorf ''%s'' [ArgType (Type res)])"
      by blast
    with createPermissions_error_response [OF b, of tr res] assms(4) show ?thesis by simp
  qed
  have w: "WriteTo env p a c
             = (Ret (0, Some err), ?c', [EvTransaction msg (obs_TURNServerAddr env) False])"
    using assms(1) WriteTo_permission_failed [OF assms(2) cp] by (simp add: WriteTo_def)
  have none: "permMap_find (permMap ?c') a = None"
    by (simp add: permMap_find_def permMap_delete_def delete_conv')
  have again: "\<exists>rest. snd (snd (WriteTo env' p' a ?c'))
                 = EvTransaction msg' (obs_TURNServerAddr env') False # rest"
    if b': "stun_Build env'
               [TransactionID, SetType (MethodCreatePermission, ClassRequest),
                RequestedTransportUDP, addr2PeerAddress a, SUsername (obs_Username env'),
                SRealm (obs_Realm env'), SNonce (nonce c), SIntegrity (integrity c), Fingerprint]
               = Inr msg'" for env' p' msg'
  proof -
    obtain rest where "snd (snd (WriteTo env' p' a ?c')) = snd (snd (WriteTo_permission env' a ?c')) @ rest"
      using WriteTo_events_prefix [OF assms(1)] by blast
    moreover have "snd (snd (WriteTo_permission env' a ?c')) = snd (createPermissions env' ?c' [a])"
      using WriteTo_permission_events none by blast
    moreover have "snd (createPermissions env' ?c' [a]) = [EvTransaction msg' (obs_TURNServerAddr env') False]"
      using b' by (simp add: createPermissions_events createPermissions_setters_single)
    ultimately show ?thesis by simp
  qed
  from w none again show ?thesis
    by simp
qed

theorem WriteTo_permission_failure_aborts_witness:
  "is_UDPAddr peerA
   \<and> (permMap_find (permMap demo_conn) peerA = None
        \<or> permMap_find (permMap demo_conn) peerA = Some permStateIdle)
   \<and> WriteTo (demo_env (tr_fail_on MethodCreatePermission)) [1, 2, 3] peerA demo_conn
       = (Ret (0, Some (ExternalError ''all retransmissions failed'')),
          demo_conn\<lparr>permMap := permMap_delete (permMap demo_conn) peerA\<rparr>,
          [EvTransaction demo_perm_request demo_server False])
   \<and> WriteTo (demo_env (tr_reject_on MethodCreatePermission)) [1, 2, 3] peerA demo_conn
       = (Ret (0, Some (Errorf ''%s'' [ArgType (MethodCreatePermission, ClassErrorResponse)])),
          demo_conn\<lparr>permMap := permMap_delete (permMap demo_conn) peerA\<rparr>,
          [EvTransaction demo_perm_request demo_server False])"
proof -
  let ?e1 = "demo_env (tr_fail_on MethodCreatePermission)"
  let ?e2 = "demo_env (tr_reject_on MethodCreatePermission)"
  let ?res = "\<lparr>Type = (MethodCreatePermission, ClassErrorResponse), Attributes = [Lifetime 0],
               Raw = []\<rparr>"
  have h1: "is_UDPAddr peerA"
    by (simp add: peerA_def)
  have h2: "permMap_find (permMap demo_conn) peerA = None
              \<or> permMap_find (permMap demo_conn) peerA = Some permStateIdle"
    by (simp add: permMap_find_def demo_conn_simps)
  have b: "stun_Build (demo_env r)
           [TransactionID, SetType (MethodCreatePermission, ClassRequest), RequestedTransportUDP,
            addr2PeerAddress peerA, SUsername (obs_Username (demo_env r)),
            SRealm (obs_Realm (demo_env r)), SNonce (nonce demo_conn),
            SIntegrity (integrity demo_conn), Fingerprint] = Inr demo_perm_request" for r
    by (simp add: demo_env_def demo_Build_def demo_conn_simps peerA_def addr2PeerAddress_def
        demo_perm_request_def)
  have s: "obs_TURNServerAddr (demo_env r) = demo_server" for r
    by (simp add: demo_env_def)
  have t1: "obs_PerformTransaction ?e1 demo_perm_request (obs_TURNServerAddr ?e1) False
              = (\<lparr>Msg = None\<rparr>, Some (ExternalError ''all retransmissions failed''))"
    by (simp add: demo_env_def tr_fail_on_def tr_failure_def demo_perm_request_def)
  have t2: "obs_PerformTransaction ?e2 demo_perm_request (obs_TURNServerAddr ?e2) False
              = (\<lparr>Msg = Some ?res\<rparr>, None)"
    by (simp add: demo_env_def tr_reject_on_def tr_reply_def demo_perm_request_def)
  have f1: "Some (ExternalError ''all retransmissions failed'')
              = Some (ExternalError ''all retransmissions failed'')
         \<or> (Some (ExternalError ''all retransmissions failed'') = None
             \<and> (\<exists>res. Msg \<lparr>Msg = None\<rparr> = Some res \<and> snd (Type res) = ClassErrorResponse
                   \<and> ExternalError ''all retransmissions failed''
                       = (case find_ErrorCode (Attributes res) of
                              Some (n, s) \<Rightarrow>
                                Errorf ''%s (error %s)'' [ArgType (Type res), ArgCode n s]
                            | None \<Rightarrow> Errorf ''%s'' [ArgType (Type res)])))"
    by simp
  have f2: "None = Some (Errorf ''%s'' [ArgType (MethodCreatePermission, ClassErrorResponse)])
         \<or> (None = (None :: error option)
             \<and> (\<exists>res. Msg \<lparr>Msg = Some ?res\<rparr> = Some res \<and> snd (Type res) = ClassErrorResponse
                   \<and> Errorf ''%s'' [ArgType (MethodCreatePermission, ClassErrorResponse)]
                       = (case find_ErrorCode (Attributes res) of
                              Some (n, s) \<Rightarrow>
                                Errorf ''%s (error %s)'' [ArgType (Type res), ArgCode n s]
                            | None \<Rightarrow> Errorf ''%s'' [ArgType (Type res)])))"
    by simp
  show ?thesis
    using h1 h2 WriteTo_permission_failure_aborts [OF h1 h2 b t1 f1, of "[1, 2, 3]"]
      WriteTo_permission_failure_aborts [OF h1 h2 b t2 f2, of "[1, 2, 3]"]
    by (simp add: s)
qed

section \<open>WriteTo: the channel binding\<close>

lemma bind_transaction_error_panics:
  assumes "stun_Build env (bind_setters env c (store (bindingMgr c) ! b)) = Inr msg"
    and "obs_PerformTransaction env msg (obs_TURNServerAddr env) False = (tr, Some e)"
    and "Msg tr = None"
  shows "bind env c b =
           (Panic nil_dereference,
            c\<lparr>bindingMgr := deleteByAddr (bindingMgr c) (b_addr (store (bindingMgr c) ! b))\<rparr>,
            [EvTransaction msg (obs_TURNServerAddr env) False])"
  using assms by (simp add: bind_def Let_def)

lemma bind_unexpected_response:
  assumes "stun_Build env (bind_setters env c (store (bindingMgr c) ! b)) = Inr msg"
    and "obs_PerformTransaction env msg (obs_TURNServerAddr env) False = (tr, None)"
    and "Msg tr = Some res"
    and "Type res \<noteq> NewType MethodChannelBind ClassSuccessResponse"
  shows "bind env c b =
           (Ret (Some (Errorf ''unexpected response type %s'' [ArgType (Type res)])), c,
            [EvTransaction msg (obs_TURNServerAddr env) False])"
  using assms by (simp add: bind_def Let_def)

text \<open>When the server answers the channel-bind request with a response that is not the
  success response, the write does what claim C1 says: the binding is marked failed, the
  failure is logged, the payload leaves in a send indication and the transport's result is
  returned.\<close>

lemma WriteTo_bind_rejected_demo:
  "fst (WriteTo (demo_env (tr_reject_on MethodChannelBind)) [1, 2, 3] peerA demo_conn)
     = Ret (39, None)
   \<and> last (snd (snd (WriteTo (demo_env (tr_reject_on MethodChannelBind)) [1, 2, 3] peerA demo_conn)))
     = EvWriteTo (replicate 36 0 @ [1, 2, 3]) demo_server
   \<and> EvLog LWarn ''bind() failed: %s''
       \<in> set (snd (snd (WriteTo (demo_env (tr_reject_on MethodChannelBind)) [1, 2, 3] peerA demo_conn)))
   \<and> map b_state (store (bindingMgr (fst (snd
        (WriteTo (demo_env (tr_reject_on MethodChannelBind)) [1, 2, 3] peerA demo_conn)))))
       = [bindingStateFailed]"
  by (simp add: WriteTo_defs demo_defs demo_conn_simps)

text \<open>Claim C1, at the input where the code departs from it. The transaction runner
  fails the channel-bind exchange of the first write to \<open>peerA\<close> (an error and no response).
  \<open>bind\<close> deletes the binding and, not returning the error, reads the type of the missing
  response: \<open>WriteTo\<close> panics. Nothing is handed to the transport, the binding is gone from
  the manager and its state is still idle, not failed.\<close>

theorem WriteTo_bind_transaction_error:
  "fst (WriteTo (demo_env (tr_fail_on MethodChannelBind)) [1, 2, 3] peerA demo_conn)
     = Panic nil_dereference
   \<and> (\<forall>raw dst. EvWriteTo raw dst
         \<notin> set (snd (snd (WriteTo (demo_env (tr_fail_on MethodChannelBind)) [1, 2, 3] peerA demo_conn))))
   \<and> findByAddr (bindingMgr (fst (snd
        (WriteTo (demo_env (tr_fail_on MethodChannelBind)) [1, 2, 3] peerA demo_conn)))) peerA = None
   \<and> map b_state (store (bindingMgr (fst (snd
        (WriteTo (demo_env (tr_fail_on MethodChannelBind)) [1, 2, 3] peerA demo_conn)))))
       = [bindingStateIdle]"
  by (simp add: WriteTo_defs demo_defs demo_conn_simps)

section \<open>WriteTo: the byte count returned\<close>

lemma WriteTo_send_success:
  assumes "fst (WriteTo_send env p a c) = Ret (n, None)"
  shows "\<exists>raw pre. snd (snd (WriteTo_send env p a c)) = pre @ [EvWriteTo raw (obs_TURNServerAddr env)]
           \<and> obs_WriteTo env raw (obs_TURNServerAddr env) = (n, None)
           \<and> ((\<exists>msg. stun_Build env (indication_setters p a) = Inr msg \<and> raw = Raw msg)
                \<or> (\<exists>chNum. raw = chData_Encode env p chNum))"
  using assms
  by (auto simp add: WriteTo_send_def WriteTo_indication_def sendChannelData_def Let_def
      split: if_splits prod.splits outcome.splits option.splits sum.splits)

text \<open>Claim C6. When \<open>WriteTo\<close> succeeds (returns a nil error), the last thing it did was to
  hand an encoded message to the transport, either the raw bytes of the send indication
  built around the payload or the channel-data frame of the payload, and the byte count it
  returns is the one the transport reported for that encoded message: with a transport
  that reports the number of bytes it was handed, the length of the encoded message. The
  length of the payload is not consulted.\<close>

theorem WriteTo_returns_transport_count:
  assumes "fst (WriteTo env p a c) = Ret (n, None)"
  shows "\<exists>raw. snd (snd (WriteTo env p a c)) \<noteq> []
           \<and> last (snd (snd (WriteTo env p a c))) = EvWriteTo raw (obs_TURNServerAddr env)
           \<and> obs_WriteTo env raw (obs_TURNServerAddr env) = (n, None)
           \<and> ((\<exists>msg. stun_Build env (indication_setters p a) = Inr msg \<and> raw = Raw msg)
                \<or> (\<exists>chNum. raw = chData_Encode env p chNum))
           \<and> ((\<forall>r d k. obs_WriteTo env r d = (k, None) \<longrightarrow> k = int (length r))
                \<longrightarrow> n = int (length raw))"
proof -
  obtain r c1 evs where w: "WriteTo_permission env a c = (r, c1, evs)"
    by (cases "WriteTo_permission env a c") auto
  obtain r2 c3 evs2 where s: "WriteTo_send env p a c1 = (r2, c3, evs2)"
    by (cases "WriteTo_send env p a c1") auto
  from assms w s have u: "is_UDPAddr a" and rn: "r = Ret None" and r2: "r2 = Ret (n, None)"
    by (auto simp add: WriteTo_def split: if_splits outcome.splits option.splits)
  from u w s rn have ev: "snd (snd (WriteTo env p a c)) = evs @ evs2"
    by (simp add: WriteTo_def)
  from WriteTo_send_success [of env p a c1 n] s r2
  obtain raw pre where e2: "evs2 = pre @ [EvWriteTo raw (obs_TURNServerAddr env)]"
    and rest: "obs_WriteTo env raw (obs_TURNServerAddr env) = (n, None)"
      "(\<exists>msg. stun_Build env (indication_setters p a) = Inr msg \<and> raw = Raw msg)
                \<or> (\<exists>chNum. raw = chData_Encode env p chNum)"
    by auto
  have "snd (snd (WriteTo env p a c)) \<noteq> []"
    and "last (snd (snd (WriteTo env p a c))) = EvWriteTo raw (obs_TURNServerAddr env)"
    using ev e2 by simp_all
  moreover have "n = int (length raw)"
    if "\<forall>r d k. obs_WriteTo env r d = (k, None) \<longrightarrow> k = int (length r)"
    using that rest(1) by blast
  ultimately show ?thesis
    using rest by blast
qed

text \<open>With a transport that reports the length of what it is handed: the first write of
  three bytes returns 39, the length of the indication; the next one, over the channel,
  returns 7, the length of the frame.\<close>

theorem WriteTo_returns_transport_count_witness:
  "fst (WriteTo (demo_env tr_success) [1, 2, 3] peerA demo_conn) = Ret (39, None)
   \<and> (\<exists>raw. last (snd (snd (WriteTo (demo_env tr_success) [1, 2, 3] peerA demo_conn)))
              = EvWriteTo raw demo_server
            \<and> obs_WriteTo (demo_env tr_success) raw demo_server = (39, None)
            \<and> 39 = int (length raw))
   \<and> fst (WriteTo (demo_env tr_success) [1, 2, 3] peerA bound_conn) = Ret (7, None)
   \<and> int (length [1, 2, 3 :: 8 word]) = 3"
proof -
  have h: "fst (WriteTo (demo_env tr_success) [1, 2, 3] peerA demo_conn) = Ret (39, None)"
    by (simp add: WriteTo_defs demo_defs demo_conn_simps)
  have g: "fst (WriteTo (demo_env tr_success) [1, 2, 3] peerA bound_conn) = Ret (7, None)"
    by (simp add: WriteTo_defs demo_defs bound_conn_simps demo_Encode_def)
  have s: "obs_TURNServerAddr (demo_env tr_success) = demo_server"
    by (simp add: demo_env_def)
  have t: "\<forall>r d k. obs_WriteTo (demo_env tr_success) r d = (k, None) \<longrightarrow> k = int (length r)"
    by (simp add: demo_env_def)
  from WriteTo_returns_transport_count [OF h] t
  obtain raw where "last (snd (snd (WriteTo (demo_env tr_success) [1, 2, 3] peerA demo_conn)))
              = EvWriteTo raw demo_server"
    and "obs_WriteTo (demo_env tr_success) raw demo_server = (39, None)"
    and "39 = int (length raw)"
    unfolding s by blast
  with h g show ?thesis
    by auto
qed

section \<open>Bindings that are ready stay ready\<close>

lemma findByAddr_create:
  "findByAddr (snd (create m a')) a = (if a = a' then Some (length (store m)) else findByAddr m a)"
  by (simp add: findByAddr_def create_def Let_def update_conv')

lemma store_create:
  "store (snd (create m a')) =
     store m @ [\<lparr>b_addr = a',
                 b_number = assignChannelNumber minChannelNumber (map fst (chanMap m)),
                 b_state = bindingStateIdle\<rparr>]"
  "fst (create m a') = length (store m)"
  by (simp_all add: create_def Let_def)

lemma findByAddr_deleteByAddr:
  "findByAddr (deleteByAddr m a') a = (if a = a' then None else findByAddr m a)"
  by (simp add: findByAddr_def deleteByAddr_def delete_conv' split: option.splits)

lemma store_deleteByAddr [simp]:
  "store (deleteByAddr m a') = store m"
  by (simp add: deleteByAddr_def findByAddr_def split: option.splits)

lemma findByAddr_setState [simp]:
  "findByAddr (setState m b s) a = findByAddr m a"
  by (simp add: findByAddr_def setState_def)

lemma store_setState:
  "store (setState m b s) = (store m)[b := (store m ! b)\<lparr>b_state := s\<rparr>]"
  by (simp add: setState_def)

lemma mgr_wfD:
  assumes "mgr_wf m" and "findByAddr m a = Some r"
  shows "r < length (store m)" and "b_addr (store m ! r) = a" and "is_UDPAddr a"
  using assms by (simp_all add: mgr_wf_def)

lemma mgr_wf_create:
  assumes "mgr_wf m" and "is_UDPAddr a'"
  shows "mgr_wf (snd (create m a'))"
  unfolding mgr_wf_def
proof (intro allI impI)
  fix a r
  assume f: "findByAddr (snd (create m a')) a = Some r"
  show "r < length (store (snd (create m a'))) \<and> b_addr (store (snd (create m a')) ! r) = a
          \<and> is_UDPAddr a"
  proof (cases "a = a'")
    case True
    with f have "r = length (store m)"
      by (simp add: findByAddr_create)
    with True assms(2) show ?thesis
      by (simp add: store_create)
  next
    case False
    with f have "findByAddr m a = Some r"
      by (simp add: findByAddr_create)
    from mgr_wfD [OF assms(1) this] show ?thesis
      by (simp add: store_create nth_append)
  qed
qed

lemma mgr_wf_deleteByAddr:
  assumes "mgr_wf m"
  shows "mgr_wf (deleteByAddr m a')"
  unfolding mgr_wf_def
proof (intro allI impI)
  fix a r
  assume "findByAddr (deleteByAddr m a') a = Some r"
  then have "findByAddr m a = Some r"
    by (simp add: findByAddr_deleteByAddr split: if_splits)
  from mgr_wfD [OF assms this]
  show "r < length (store (deleteByAddr m a')) \<and> b_addr (store (deleteByAddr m a') ! r) = a
          \<and> is_UDPAddr a"
    by simp
qed

lemma mgr_wf_setState:
  assumes "mgr_wf m"
  shows "mgr_wf (setState m b s)"
  unfolding mgr_wf_def
proof (intro allI impI)
  fix a r
  assume "findByAddr (setState m b s) a = Some r"
  then have "findByAddr m a = Some r"
    by simp
  from mgr_wfD [OF assms this]
  show "r < length (store (setState m b s)) \<and> b_addr (store (setState m b s) ! r) = a
          \<and> is_UDPAddr a"
    by (cases "b = r") (simp_all add: store_setState)
qed

lemma mgr_ready_create:
  assumes "mgr_wf m" and "mgr_ready m a n" and "a \<noteq> a'"
  shows "mgr_ready (snd (create m a')) a n"
proof -
  from assms(2) obtain r where f: "findByAddr m a = Some r"
    and s: "b_state (store m ! r) = bindingStateReady" "b_number (store m ! r) = n"
    by (auto simp add: mgr_ready_def split: option.splits)
  from mgr_wfD(1) [OF assms(1) f] f s assms(3) show ?thesis
    by (simp add: mgr_ready_def findByAddr_create store_create nth_append)
qed

lemma mgr_ready_deleteByAddr:
  assumes "mgr_ready m a n" and "a \<noteq> a'"
  shows "mgr_ready (deleteByAddr m a') a n"
  using assms
  by (simp add: mgr_ready_def findByAddr_deleteByAddr split: option.splits)

lemma mgr_ready_setState:
  assumes "mgr_ready m a n" and "b_state (store m ! b) \<noteq> bindingStateReady"
  shows "mgr_ready (setState m b s) a n"
proof -
  from assms(1) obtain r where f: "findByAddr m a = Some r"
    and s: "b_state (store m ! r) = bindingStateReady" "b_number (store m ! r) = n"
    by (auto simp add: mgr_ready_def split: option.splits)
  from s assms(2) have "b \<noteq> r"
    by auto
  with f s show ?thesis
    by (simp add: mgr_ready_def store_setState)
qed


lemma wf_connD:
  assumes "wf_conn c"
  shows "mgr_wf (bindingMgr c)"
    and "findByAddr (bindingMgr c) a = Some r \<Longrightarrow> permMap_find (permMap c) a = Some permStatePermitted"
  using assms by (simp_all add: wf_conn_def)

lemma WriteTo_binding_found:
  assumes "findByAddr (bindingMgr c) a = Some r"
  shows "WriteTo_binding a c = (r, c)"
  using assms by (simp add: WriteTo_binding_def)

lemma WriteTo_binding_created:
  assumes "findByAddr (bindingMgr c) a = None"
  shows "WriteTo_binding a c
           = (length (store (bindingMgr c)), c\<lparr>bindingMgr := snd (create (bindingMgr c) a)\<rparr>)"
  using assms by (simp add: WriteTo_binding_def case_prod_beta store_create)

lemma WriteTo_binding_frame:
  "permMap (snd (WriteTo_binding a c)) = permMap c"
  "closeCh (snd (WriteTo_binding a c)) = closeCh c"
  "relayedAddr (snd (WriteTo_binding a c)) = relayedAddr c"
  "refreshAllocTimer (snd (WriteTo_binding a c)) = refreshAllocTimer c"
  "refreshPermsTimer (snd (WriteTo_binding a c)) = refreshPermsTimer c"
  by (simp_all add: WriteTo_binding_def case_prod_beta split: option.splits)

lemma WriteTo_binding_registered:
  "findByAddr (bindingMgr (snd (WriteTo_binding a c))) a = Some (fst (WriteTo_binding a c))"
proof (cases "findByAddr (bindingMgr c) a")
  case None
  then show ?thesis
    by (simp add: WriteTo_binding_created findByAddr_create)
next
  case (Some r)
  then show ?thesis
    by (simp add: WriteTo_binding_found)
qed

lemma WriteTo_binding_wf:
  assumes "wf_conn c" and "is_UDPAddr a" and "permMap_find (permMap c) a = Some permStatePermitted"
  shows "wf_conn (snd (WriteTo_binding a c))"
proof (cases "findByAddr (bindingMgr c) a")
  case None
  have "mgr_wf (snd (create (bindingMgr c) a))"
    using mgr_wf_create [OF wf_connD(1) [OF assms(1)] assms(2)] .
  moreover have "permMap_find (permMap c) a' = Some permStatePermitted"
    if "findByAddr (snd (create (bindingMgr c) a)) a' = Some r" for a' r
  proof (cases "a' = a")
    case True
    with assms(3) show ?thesis by simp
  next
    case False
    with that have "findByAddr (bindingMgr c) a' = Some r"
      by (simp add: findByAddr_create)
    then show ?thesis
      by (rule wf_connD(2) [OF assms(1)])
  qed
  ultimately show ?thesis
    by (simp add: wf_conn_def WriteTo_binding_created [OF None])
next
  case (Some r)
  then show ?thesis
    using assms(1) by (simp add: WriteTo_binding_found)
qed

lemma WriteTo_binding_ready:
  assumes "wf_conn c" and "binding_ready c a n"
  shows "binding_ready (snd (WriteTo_binding a' c)) a n"
proof (cases "findByAddr (bindingMgr c) a'")
  case None
  from assms(2) None have "a \<noteq> a'"
    by (auto simp add: binding_ready_def mgr_ready_def)
  from mgr_ready_create [OF wf_connD(1) [OF assms(1)] _ this] assms(2) show ?thesis
    by (simp add: binding_ready_def WriteTo_binding_created [OF None])
next
  case (Some r)
  then show ?thesis
    using assms(2) by (simp add: WriteTo_binding_found)
qed

lemma bind_state:
  "fst (snd (bind env c b)) = c
   \<or> fst (snd (bind env c b))
       = c\<lparr>bindingMgr := deleteByAddr (bindingMgr c) (b_addr (store (bindingMgr c) ! b))\<rparr>"
  by (simp add: bind_def Let_def case_prod_beta split: sum.splits option.splits)

lemma WriteTo_bind_state_idle:
  assumes "b_state (store (bindingMgr c) ! b) = bindingStateIdle"
  shows "fst (snd (WriteTo_bind env b c)) = fst (snd (bind env c b))
       \<or> (\<exists>s. fst (snd (WriteTo_bind env b c))
                = (fst (snd (bind env c b)))
                    \<lparr>bindingMgr := setState (bindingMgr (fst (snd (bind env c b)))) b s\<rparr>)"
proof -
  obtain r c1 evs where b: "bind env c b = (r, c1, evs)"
    by (cases "bind env c b") auto
  show ?thesis
  proof (cases r)
    case (Panic s)
    with assms b show ?thesis by (simp add: WriteTo_bind_def)
  next
    case (Ret e)
    with assms b show ?thesis by (cases e) (auto simp add: WriteTo_bind_def)
  qed
qed

lemma WriteTo_bind_state_other:
  assumes "b_state (store (bindingMgr c) ! b) \<noteq> bindingStateIdle"
  shows "WriteTo_bind env b c = (Ret (), c, [])"
  using assms by (simp add: WriteTo_bind_def)

lemma WriteTo_send_state:
  "fst (snd (WriteTo_send env p a c)) =
     (if b_state (store (bindingMgr (snd (WriteTo_binding a c))) ! fst (WriteTo_binding a c))
           = bindingStateIdle
      then fst (snd (WriteTo_bind env (fst (WriteTo_binding a c)) (snd (WriteTo_binding a c))))
      else snd (WriteTo_binding a c))"
proof -
  obtain b c2 where w: "WriteTo_binding a c = (b, c2)"
    by (cases "WriteTo_binding a c") auto
  obtain r c3 evs where wb: "WriteTo_bind env b c2 = (r, c3, evs)"
    by (cases "WriteTo_bind env b c2") auto
  show ?thesis
    using w wb by (cases r) (simp_all add: WriteTo_send_def case_prod_beta)
qed


lemma wf_conn_deleteByAddr:
  assumes "wf_conn c"
  shows "wf_conn (c\<lparr>bindingMgr := deleteByAddr (bindingMgr c) x\<rparr>)"
proof -
  have "permMap_find (permMap c) a = Some permStatePermitted"
    if "findByAddr (deleteByAddr (bindingMgr c) x) a = Some r" for a r
  proof -
    from that have "findByAddr (bindingMgr c) a = Some r"
      by (simp add: findByAddr_deleteByAddr split: if_splits)
    then show ?thesis by (rule wf_connD(2) [OF assms])
  qed
  with mgr_wf_deleteByAddr [OF wf_connD(1) [OF assms]] show ?thesis
    by (simp add: wf_conn_def)
qed

lemma wf_conn_setState:
  assumes "wf_conn c"
  shows "wf_conn (c\<lparr>bindingMgr := setState (bindingMgr c) b s\<rparr>)"
  using assms mgr_wf_setState [of "bindingMgr c" b s] by (simp add: wf_conn_def)

lemma bind_wf:
  assumes "wf_conn c"
  shows "wf_conn (fst (snd (bind env c b)))"
  using bind_state [of env c b] assms wf_conn_deleteByAddr [OF assms] by auto

lemma bind_store:
  "store (bindingMgr (fst (snd (bind env c b)))) = store (bindingMgr c)"
  using bind_state [of env c b] by auto

lemma bind_ready:
  assumes "binding_ready c a n" and "b_addr (store (bindingMgr c) ! b) \<noteq> a"
  shows "binding_ready (fst (snd (bind env c b))) a n"
  using bind_state [of env c b] assms mgr_ready_deleteByAddr [of "bindingMgr c" a n]
  by (auto simp add: binding_ready_def)

lemma WriteTo_bind_wf:
  assumes "wf_conn c"
  shows "wf_conn (fst (snd (WriteTo_bind env b c)))"
proof (cases "b_state (store (bindingMgr c) ! b) = bindingStateIdle")
  case True
  from WriteTo_bind_state_idle [OF True, of env] bind_wf [OF assms, of env b]
    wf_conn_setState [OF bind_wf [OF assms, of env b]]
  show ?thesis by auto
next
  case False
  with assms show ?thesis by (simp add: WriteTo_bind_state_other)
qed

lemma WriteTo_bind_ready:
  assumes "binding_ready c a n" and "b_addr (store (bindingMgr c) ! b) \<noteq> a"
  shows "binding_ready (fst (snd (WriteTo_bind env b c))) a n"
proof (cases "b_state (store (bindingMgr c) ! b) = bindingStateIdle")
  case True
  let ?c1 = "fst (snd (bind env c b))"
  have r1: "binding_ready ?c1 a n"
    using bind_ready [OF assms] .
  have "b_state (store (bindingMgr ?c1) ! b) \<noteq> bindingStateReady"
    using True by (simp add: bind_store)
  then have "binding_ready (?c1\<lparr>bindingMgr := setState (bindingMgr ?c1) b s\<rparr>) a n" for s
    using r1 mgr_ready_setState [of "bindingMgr ?c1" a n b s] by (simp add: binding_ready_def)
  with WriteTo_bind_state_idle [OF True, of env] r1 show ?thesis
    by auto
next
  case False
  with assms show ?thesis by (simp add: WriteTo_bind_state_other)
qed

lemma WriteTo_send_wf:
  assumes "wf_conn c" and "is_UDPAddr a" and "permMap_find (permMap c) a = Some permStatePermitted"
  shows "wf_conn (fst (snd (WriteTo_send env p a c)))"
  using WriteTo_binding_wf [OF assms] WriteTo_bind_wf
  by (simp add: WriteTo_send_state)

lemma WriteTo_send_ready:
  assumes "wf_conn c" and "is_UDPAddr a'"
    and "permMap_find (permMap c) a' = Some permStatePermitted"
    and "binding_ready c a n"
  shows "binding_ready (fst (snd (WriteTo_send env p a' c))) a n"
proof -
  let ?b = "fst (WriteTo_binding a' c)" and ?c2 = "snd (WriteTo_binding a' c)"
  have r2: "binding_ready ?c2 a n"
    using WriteTo_binding_ready [OF assms(1,4)] .
  have wf2: "wf_conn ?c2"
    using WriteTo_binding_wf [OF assms(1-3)] .
  have reg: "findByAddr (bindingMgr ?c2) a' = Some ?b"
    by (rule WriteTo_binding_registered)
  show ?thesis
  proof (cases "b_state (store (bindingMgr ?c2) ! ?b) = bindingStateIdle")
    case True
    have "a \<noteq> a'"
    proof
      assume "a = a'"
      with r2 reg have "b_state (store (bindingMgr ?c2) ! ?b) = bindingStateReady"
        by (simp add: binding_ready_def mgr_ready_def)
      with True show False by simp
    qed
    moreover have "b_addr (store (bindingMgr ?c2) ! ?b) = a'"
      using mgr_wfD(2) [OF wf_connD(1) [OF wf2] reg] .
    ultimately have "b_addr (store (bindingMgr ?c2) ! ?b) \<noteq> a"
      by simp
    from WriteTo_bind_ready [OF r2 this] True show ?thesis
      by (simp add: WriteTo_send_state)
  next
    case False
    with r2 show ?thesis by (simp add: WriteTo_send_state)
  qed
qed

lemma WriteTo_send_ready_result:
  assumes "binding_ready c a n"
  shows "WriteTo_send env p a c =
           (Ret (obs_WriteTo env (chData_Encode env p n) (obs_TURNServerAddr env)), c,
            [EvWriteTo (chData_Encode env p n) (obs_TURNServerAddr env)])"
proof -
  from assms obtain r where f: "findByAddr (bindingMgr c) a = Some r"
    and s: "b_state (store (bindingMgr c) ! r) = bindingStateReady"
      "b_number (store (bindingMgr c) ! r) = n"
    by (auto simp add: binding_ready_def mgr_ready_def split: option.splits)
  then show ?thesis
    by (simp add: WriteTo_send_def WriteTo_binding_found [OF f] sendChannelData_def Let_def)
qed

lemma WriteTo_permission_bindingMgr:
  "bindingMgr (fst (snd (WriteTo_permission env a c))) = bindingMgr c"
  by (simp add: WriteTo_permission_def case_prod_beta
      split: option.splits outcome.splits perm_state.splits)

lemma WriteTo_permission_other:
  assumes "a' \<noteq> a"
  shows "permMap_find (permMap (fst (snd (WriteTo_permission env a c)))) a'
           = permMap_find (permMap c) a'"
  using assms
  by (simp add: WriteTo_permission_def case_prod_beta permMap_find_def permMap_insert_def
      permMap_delete_def update_conv' delete_conv'
      split: option.splits outcome.splits perm_state.splits)

lemma WriteTo_permission_permitted:
  assumes "permMap_find (permMap c) a = Some permStatePermitted"
  shows "WriteTo_permission env a c = (Ret None, c, [])"
  using assms by (simp add: WriteTo_permission_def)

lemma WriteTo_permission_granted:
  assumes "fst (WriteTo_permission env a c) = Ret None"
  shows "permMap_find (permMap (fst (snd (WriteTo_permission env a c)))) a = Some permStatePermitted"
proof (cases "permMap_find (permMap c) a = Some permStatePermitted")
  case True
  then show ?thesis by (simp add: WriteTo_permission_permitted)
next
  case False
  then have "permMap_find (permMap c) a = None \<or> permMap_find (permMap c) a = Some permStateIdle"
    by (cases "permMap_find (permMap c) a") (auto intro: perm_state.exhaust)
  with assms show ?thesis
    by (auto simp add: WriteTo_permission_def case_prod_beta permMap_find_def permMap_insert_def
        update_conv' split: outcome.splits option.splits)
qed

lemma WriteTo_permission_wf:
  assumes "wf_conn c"
  shows "wf_conn (fst (snd (WriteTo_permission env a c)))"
proof -
  let ?c1 = "fst (snd (WriteTo_permission env a c))"
  have "permMap_find (permMap ?c1) a' = Some permStatePermitted"
    if f: "findByAddr (bindingMgr c) a' = Some r" for a' r
  proof (cases "a' = a")
    case True
    with wf_connD(2) [OF assms f] show ?thesis
      by (simp add: WriteTo_permission_permitted)
  next
    case False
    with wf_connD(2) [OF assms f] show ?thesis
      by (simp add: WriteTo_permission_other)
  qed
  with wf_connD(1) [OF assms] show ?thesis
    by (simp add: wf_conn_def WriteTo_permission_bindingMgr)
qed

lemma WriteTo_permission_ready:
  assumes "binding_ready c a n"
  shows "binding_ready (fst (snd (WriteTo_permission env a' c))) a n"
  using assms by (simp add: binding_ready_def WriteTo_permission_bindingMgr)

lemma WriteTo_state:
  "fst (snd (WriteTo env p a c)) =
     (if \<not> is_UDPAddr a then c
      else if fst (WriteTo_permission env a c) = Ret None
      then fst (snd (WriteTo_send env p a (fst (snd (WriteTo_permission env a c)))))
      else fst (snd (WriteTo_permission env a c)))"
proof -
  obtain r c1 evs where w: "WriteTo_permission env a c = (r, c1, evs)"
    by (cases "WriteTo_permission env a c") auto
  show ?thesis
  proof (cases r)
    case (Panic s)
    with w show ?thesis by (simp add: WriteTo_def)
  next
    case (Ret e)
    with w show ?thesis by (cases e) (simp_all add: WriteTo_def case_prod_beta)
  qed
qed

lemma WriteTo_wf:
  assumes "wf_conn c"
  shows "wf_conn (fst (snd (WriteTo env p a c)))"
  using assms WriteTo_permission_wf [OF assms, of env a]
    WriteTo_send_wf [OF WriteTo_permission_wf [OF assms, of env a] _ WriteTo_permission_granted]
  by (simp add: WriteTo_state)

lemma WriteTo_ready:
  assumes "wf_conn c" and "binding_ready c a n"
  shows "binding_ready (fst (snd (WriteTo env p a' c))) a n"
  using assms WriteTo_permission_ready [OF assms(2), of env a']
    WriteTo_send_ready [OF WriteTo_permission_wf [OF assms(1), of env a'] _
      WriteTo_permission_granted WriteTo_permission_ready [OF assms(2), of env a']]
  by (simp add: WriteTo_state)

lemma WriteTo_ready_result:
  assumes "wf_conn c" and "binding_ready c a n"
  shows "WriteTo env p a c =
           (Ret (obs_WriteTo env (chData_Encode env p n) (obs_TURNServerAddr env)), c,
            [EvWriteTo (chData_Encode env p n) (obs_TURNServerAddr env)])"
proof -
  from assms(2) obtain r where f: "findByAddr (bindingMgr c) a = Some r"
    by (auto simp add: binding_ready_def mgr_ready_def split: option.splits)
  from mgr_wfD(3) [OF wf_connD(1) [OF assms(1)] f] have u: "is_UDPAddr a" .
  from wf_connD(2) [OF assms(1) f] have "WriteTo_permission env a c = (Ret None, c, [])"
    by (rule WriteTo_permission_permitted)
  with u WriteTo_send_ready_result [OF assms(2), of env p] show ?thesis
    by (simp add: WriteTo_def)
qed

lemma final_Nil [simp]: "final [] c = c"
  by (simp add: final_def)

lemma final_Cons [simp]:
  "final ((env, now, x) # xs) c = final xs (fst (snd (step env now x c)))"
  by (simp add: final_def case_prod_beta)

lemma final_append: "final (xs @ ys) c = final ys (final xs c)"
  by (induction xs arbitrary: c) auto

lemma refreshAllocation_state:
  "fst (snd (refreshAllocation env lt dw c)) = c
   \<or> (\<exists>d. \<not> dw \<and> fst (snd (refreshAllocation env lt dw c)) = c\<lparr>lifetime := d\<rparr>)"
  by (auto simp add: refreshAllocation_def Let_def case_prod_beta split: sum.splits option.splits)

lemma onRefreshTimers_state:
  "fst (snd (onRefreshTimers env i c)) = c
   \<or> (\<exists>d. fst (snd (onRefreshTimers env i c)) = c\<lparr>lifetime := d\<rparr>)"
  using refreshAllocation_state [of env "lifetime c" False c]
  by (auto simp add: onRefreshTimers_def Let_def case_prod_beta)

lemma timer_fires_frame:
  "bindingMgr (fst (snd (timer_fires env now i c))) = bindingMgr c"
  "permMap (fst (snd (timer_fires env now i c))) = permMap c"
  "closeCh (fst (snd (timer_fires env now i c))) = closeCh c"
  "relayedAddr (fst (snd (timer_fires env now i c))) = relayedAddr c"
  using onRefreshTimers_state [of env i "c\<lparr>refreshAllocTimer := pt_fired (refreshAllocTimer c)\<rparr>"]
    onRefreshTimers_state [of env i "c\<lparr>refreshPermsTimer := pt_fired (refreshPermsTimer c)\<rparr>"]
  by (auto simp add: timer_fires_def case_prod_beta)

lemma timer_fires_response:
  "\<not> is_RespClose (fst (timer_fires env now i c), evs)"
  by (simp add: timer_fires_def case_prod_beta)

lemma Close_state:
  "fst (snd (Close env c)) =
     c\<lparr>refreshAllocTimer := Stop (refreshAllocTimer c),
       refreshPermsTimer := Stop (refreshPermsTimer c),
       closeCh := True\<rparr>"
proof -
  let ?c0 = "c\<lparr>refreshAllocTimer := Stop (refreshAllocTimer c),
       refreshPermsTimer := Stop (refreshPermsTimer c)\<rparr>"
  obtain r c2 evs where ra: "refreshAllocation env 0 True (?c0\<lparr>closeCh := True\<rparr>) = (r, c2, evs)"
    by (cases "refreshAllocation env 0 True (?c0\<lparr>closeCh := True\<rparr>)") auto
  from refreshAllocation_state [of env 0 True "?c0\<lparr>closeCh := True\<rparr>"] ra
  have c2: "c2 = ?c0\<lparr>closeCh := True\<rparr>"
    by simp
  show ?thesis
  proof (cases "closeCh c")
    case True
    then show ?thesis by (simp add: Close_def Let_def)
  next
    case False
    with ra c2 show ?thesis
      by (cases r) (simp_all add: Close_def Let_def)
  qed
qed

lemma ReadFrom_frame:
  "bindingMgr (snd (snd (ReadFrom now sel p c))) = bindingMgr c"
  "permMap (snd (snd (ReadFrom now sel p c))) = permMap c"
  "closeCh (snd (snd (ReadFrom now sel p c))) = closeCh c"
  "relayedAddr (snd (snd (ReadFrom now sel p c))) = relayedAddr c"
  "refreshAllocTimer (snd (snd (ReadFrom now sel p c))) = refreshAllocTimer c"
  "refreshPermsTimer (snd (snd (ReadFrom now sel p c))) = refreshPermsTimer c"
  by (simp_all add: ReadFrom_def Let_def case_prod_beta split: select_case.splits list.splits)

lemma WriteTo_bind_frame:
  "permMap (fst (snd (WriteTo_bind env b c))) = permMap c"
  "closeCh (fst (snd (WriteTo_bind env b c))) = closeCh c"
  "relayedAddr (fst (snd (WriteTo_bind env b c))) = relayedAddr c"
  "refreshAllocTimer (fst (snd (WriteTo_bind env b c))) = refreshAllocTimer c"
  "refreshPermsTimer (fst (snd (WriteTo_bind env b c))) = refreshPermsTimer c"
proof -
  have b: "permMap (fst (snd (bind env c b))) = permMap c
    \<and> closeCh (fst (snd (bind env c b))) = closeCh c
    \<and> relayedAddr (fst (snd (bind env c b))) = relayedAddr c
    \<and> refreshAllocTimer (fst (snd (bind env c b))) = refreshAllocTimer c
    \<and> refreshPermsTimer (fst (snd (bind env c b))) = refreshPermsTimer c"
    using bind_state [of env c b] by auto
  show "permMap (fst (snd (WriteTo_bind env b c))) = permMap c"
    "closeCh (fst (snd (WriteTo_bind env b c))) = closeCh c"
    "relayedAddr (fst (snd (WriteTo_bind env b c))) = relayedAddr c"
    "refreshAllocTimer (fst (snd (WriteTo_bind env b c))) = refreshAllocTimer c"
    "refreshPermsTimer (fst (snd (WriteTo_bind env b c))) = refreshPermsTimer c"
    using b WriteTo_bind_state_idle [of c b env] WriteTo_bind_state_other [of c b env]
    by (cases "b_state (store (bindingMgr c) ! b) = bindingStateIdle"; auto)+
qed

lemma WriteTo_permission_frame:
  "closeCh (fst (snd (WriteTo_permission env a c))) = closeCh c"
  "relayedAddr (fst (snd (WriteTo_permission env a c))) = relayedAddr c"
  "refreshAllocTimer (fst (snd (WriteTo_permission env a c))) = refreshAllocTimer c"
  "refreshPermsTimer (fst (snd (WriteTo_permission env a c))) = refreshPermsTimer c"
  by (simp_all add: WriteTo_permission_def case_prod_beta
      split: option.splits outcome.splits perm_state.splits)

lemma WriteTo_frame:
  "closeCh (fst (snd (WriteTo env p a c))) = closeCh c"
  "relayedAddr (fst (snd (WriteTo env p a c))) = relayedAddr c"
  "refreshAllocTimer (fst (snd (WriteTo env p a c))) = refreshAllocTimer c"
  "refreshPermsTimer (fst (snd (WriteTo env p a c))) = refreshPermsTimer c"
  by (simp_all add: WriteTo_state WriteTo_send_state WriteTo_bind_frame WriteTo_binding_frame
      WriteTo_permission_frame)

lemma step_mgr_frame:
  assumes "\<And>p a. x \<noteq> CallWriteTo p a"
  shows "bindingMgr (fst (snd (step env now x c))) = bindingMgr c"
    and "permMap (fst (snd (step env now x c))) = permMap c"
proof -
  have "bindingMgr (fst (snd (step env now x c))) = bindingMgr c
      \<and> permMap (fst (snd (step env now x c))) = permMap c"
  proof (cases x)
    case (CallWriteTo p a)
    with assms [of p a] show ?thesis by simp
  next
    case (CallReadFrom sel p)
    then show ?thesis by (simp add: case_prod_beta ReadFrom_frame)
  next
    case CallClose
    then show ?thesis by (simp add: case_prod_beta Close_state)
  next
    case (CallSetDeadline t)
    then show ?thesis by (simp add: SetDeadline_def SetReadDeadline_def Let_def)
  next
    case (CallSetReadDeadline t)
    then show ?thesis by (simp add: SetReadDeadline_def Let_def)
  next
    case (CallSetWriteDeadline t)
    then show ?thesis by (simp add: SetWriteDeadline_def)
  next
    case (CallHandleInbound d f)
    then show ?thesis by (simp add: HandleInbound_def)
  next
    case (CallTimer i)
    then show ?thesis
      by (simp add: timer_fires_frame)
  qed
  then show "bindingMgr (fst (snd (step env now x c))) = bindingMgr c"
    and "permMap (fst (snd (step env now x c))) = permMap c"
    by simp_all
qed

lemma step_wf:
  assumes "wf_conn c"
  shows "wf_conn (fst (snd (step env now x c)))"
proof (cases "\<exists>p a. x = CallWriteTo p a")
  case True
  then show ?thesis
    using WriteTo_wf [OF assms] by (auto simp add: case_prod_beta)
next
  case False
  then have "\<And>p a. x \<noteq> CallWriteTo p a" by blast
  from step_mgr_frame [OF this, of env now c] assms show ?thesis
    by (simp add: wf_conn_def)
qed

lemma step_ready:
  assumes "wf_conn c" and "binding_ready c a n"
  shows "binding_ready (fst (snd (step env now x c))) a n"
proof (cases "\<exists>p a. x = CallWriteTo p a")
  case True
  then show ?thesis
    using WriteTo_ready [OF assms] by (auto simp add: case_prod_beta)
next
  case False
  then have "\<And>p a. x \<noteq> CallWriteTo p a" by blast
  from step_mgr_frame [OF this, of env now c] assms(2) show ?thesis
    by (simp add: binding_ready_def)
qed

lemma final_wf:
  assumes "wf_conn c"
  shows "wf_conn (final xs c)"
  using assms
proof (induction xs arbitrary: c)
  case Nil
  then show ?case by simp
next
  case (Cons x xs)
  obtain env now y where x: "x = (env, now, y)" by (cases x) auto
  from Cons.IH [OF step_wf [OF Cons.prems, of env now y]] x show ?case by simp
qed

lemma final_ready:
  assumes "wf_conn c" and "binding_ready c a n"
  shows "binding_ready (final xs c) a n"
  using assms
proof (induction xs arbitrary: c)
  case Nil
  then show ?case by simp
next
  case (Cons x xs)
  obtain env now y where x: "x = (env, now, y)" by (cases x) auto
  from Cons.IH [OF step_wf [OF Cons.prems(1), of env now y] step_ready [OF Cons.prems, of env now y]] x
  show ?case by simp
qed

lemma NewUDPConn_wf: "wf_conn (fst (NewUDPConn t0 config))"
  by (simp add: NewUDPConn_def wf_conn_def mgr_wf_def findByAddr_def newBindingManager_def
      case_prod_beta)

text \<open>Claim C3. Take any state the connection reaches from its construction in which
  the binding registered for peer address \<open>a\<close> is ready, with channel number \<open>n\<close>. After
  any further calls (writes to any peer, reads, deadlines, inbound data, refresh timers,
  Close), a \<open>WriteTo\<close> of payload \<open>p\<close> to \<open>a\<close> hands exactly one message to the transport,
  the channel-data frame of \<open>p\<close> with number \<open>n\<close>, performs no transaction, builds no send
  indication, leaves the state as it is and returns the transport's result.\<close>

theorem ready_binding_sends_channel_data:
  assumes "binding_ready (final xs (fst (NewUDPConn t0 config))) a n"
  shows "WriteTo env p a (final ys (final xs (fst (NewUDPConn t0 config)))) =
           (Ret (obs_WriteTo env (chData_Encode env p n) (obs_TURNServerAddr env)),
            final ys (final xs (fst (NewUDPConn t0 config))),
            [EvWriteTo (chData_Encode env p n) (obs_TURNServerAddr env)])"
proof -
  let ?c = "final xs (fst (NewUDPConn t0 config))"
  have wf: "wf_conn ?c"
    by (rule final_wf [OF NewUDPConn_wf])
  have "wf_conn (final ys ?c)" and "binding_ready (final ys ?c) a n"
    using final_wf [OF wf] final_ready [OF wf assms] by simp_all
  then show ?thesis
    by (rule WriteTo_ready_result)
qed

theorem ready_binding_sends_channel_data_witness:
  "binding_ready
     (final [(demo_env tr_success, 0, CallWriteTo [1, 2, 3] peerA)] (fst (NewUDPConn 0 demo_config)))
     peerA 16384
   \<and> fst (WriteTo (demo_env tr_success) [7, 8] peerA
        (final [(demo_env tr_success, 5, CallClose)]
           (final [(demo_env tr_success, 0, CallWriteTo [1, 2, 3] peerA)]
              (fst (NewUDPConn 0 demo_config)))))
       = Ret (6, None)
   \<and> snd (snd (WriteTo (demo_env tr_success) [7, 8] peerA
        (final [(demo_env tr_success, 5, CallClose)]
           (final [(demo_env tr_success, 0, CallWriteTo [1, 2, 3] peerA)]
              (fst (NewUDPConn 0 demo_config))))))
       = [EvWriteTo (demo_Encode [7, 8] 16384) demo_server]"
proof -
  have fb: "final [(demo_env tr_success, 0, CallWriteTo [1, 2, 3] peerA)]
              (fst (NewUDPConn 0 demo_config)) = bound_conn"
    by (simp add: bound_conn_def demo_conn_def case_prod_beta)
  have h: "binding_ready
     (final [(demo_env tr_success, 0, CallWriteTo [1, 2, 3] peerA)] (fst (NewUDPConn 0 demo_config)))
     peerA 16384"
    unfolding fb by (simp add: binding_ready_def mgr_ready_def findByAddr_def bound_conn_simps)
  show ?thesis
    using h ready_binding_sends_channel_data
      [OF h, of "demo_env tr_success" "[7, 8]" "[(demo_env tr_success, 5, CallClose)]"]
    by (simp add: demo_env_def demo_Encode_def)
qed

section \<open>Close\<close>

lemma quiet_simps [simp]:
  "quiet []"
  "quiet (evs @ evs') = (quiet evs \<and> quiet evs')"
  "quiet (EvLog l s # evs) = quiet evs"
  "quiet (EvWriteTo r d # evs) = quiet evs"
  "quiet (EvTransaction m d False # evs) = quiet evs"
  by (auto simp add: quiet_def)

lemma quietD:
  assumes "quiet evs"
  shows "filter is_dealloc evs = []" and "filter is_teardown evs = []"
  using assms by (simp_all add: quiet_def)

lemma createPermissions_quiet: "quiet (snd (createPermissions env c addrs))"
  by (simp add: createPermissions_events split: sum.splits)

lemma bind_quiet: "quiet (snd (snd (bind env c b)))"
  by (simp add: bind_def Let_def case_prod_beta split: sum.splits option.splits)

lemma WriteTo_bind_quiet: "quiet (snd (snd (WriteTo_bind env b c)))"
proof -
  obtain r c1 evs where b: "bind env c b = (r, c1, evs)"
    by (cases "bind env c b") auto
  with bind_quiet [of env c b] have q: "quiet evs" by simp
  show ?thesis
  proof (cases r)
    case (Panic s)
    with b q show ?thesis by (simp add: WriteTo_bind_def)
  next
    case (Ret e)
    with b q show ?thesis by (cases e) (simp_all add: WriteTo_bind_def)
  qed
qed

lemma WriteTo_indication_quiet: "quiet (snd (WriteTo_indication env p a))"
  by (simp add: WriteTo_indication_def split: sum.splits)

lemma sendChannelData_quiet: "quiet (snd (sendChannelData env p n))"
  by (simp add: sendChannelData_def Let_def)

lemma WriteTo_send_quiet: "quiet (snd (snd (WriteTo_send env p a c)))"
proof -
  obtain b c2 where w: "WriteTo_binding a c = (b, c2)"
    by (cases "WriteTo_binding a c") auto
  obtain r c3 evs where wb: "WriteTo_bind env b c2 = (r, c3, evs)"
    by (cases "WriteTo_bind env b c2") auto
  with WriteTo_bind_quiet [of env b c2] have q: "quiet evs" by simp
  show ?thesis
    using w wb q WriteTo_indication_quiet [of env p a]
      sendChannelData_quiet [of env p "b_number (store (bindingMgr c2) ! b)"]
    by (cases r) (simp_all add: WriteTo_send_def case_prod_beta)
qed

lemma WriteTo_permission_quiet: "quiet (snd (snd (WriteTo_permission env a c)))"
proof -
  let ?c1 = "c\<lparr>permMap := permMap_insert (permMap c) a permStateIdle\<rparr>"
  obtain r evs where cp: "createPermissions env c [a] = (r, evs)"
    by (cases "createPermissions env c [a]") auto
  with createPermissions_quiet [of env c "[a]"] have q: "quiet evs" by simp
  show ?thesis
  proof (cases r)
    case (Panic s)
    with cp q show ?thesis
      by (simp add: WriteTo_permission_def case_prod_beta split: option.splits)
  next
    case (Ret e)
    with cp q show ?thesis
      by (cases e) (simp_all add: WriteTo_permission_def case_prod_beta split: option.splits)
  qed
qed

lemma WriteTo_quiet: "quiet (snd (snd (WriteTo env p a c)))"
proof -
  obtain r c1 evs where w: "WriteTo_permission env a c = (r, c1, evs)"
    by (cases "WriteTo_permission env a c") auto
  with WriteTo_permission_quiet [of env a c] have q: "quiet evs" by simp
  show ?thesis
  proof (cases r)
    case (Panic s)
    with w q show ?thesis by (simp add: WriteTo_def)
  next
    case (Ret e)
    with w q WriteTo_send_quiet [of env p a c1] show ?thesis
      by (cases e) (simp_all add: WriteTo_def case_prod_beta)
  qed
qed

lemma refreshAllocation_quiet: "quiet (snd (snd (refreshAllocation env lt False c)))"
  by (simp add: refreshAllocation_def Let_def case_prod_beta split: sum.splits option.splits)

lemma refreshAllocation_teardown:
  "filter is_dealloc (snd (snd (refreshAllocation env lt True c))) = []"
  "filter is_teardown (snd (snd (refreshAllocation env lt True c))) =
     (case stun_Build env (refreshAllocation_setters lt) of
        Inl e \<Rightarrow> []
      | Inr m \<Rightarrow> [EvTransaction m (obs_TURNServerAddr env) True])"
  "\<exists>u. fst (refreshAllocation env lt True c) = Ret u"
  by (simp_all add: refreshAllocation_def Let_def case_prod_beta split: sum.splits option.splits)

lemma refreshPermissions_quiet: "quiet (snd (refreshPermissions env c))"
proof -
  obtain r evs where cp: "createPermissions env c (permMap_addrs (permMap c)) = (r, evs)"
    by (cases "createPermissions env c (permMap_addrs (permMap c))") auto
  with createPermissions_quiet [of env c "permMap_addrs (permMap c)"] have q: "quiet evs" by simp
  show ?thesis
  proof (cases r)
    case (Panic s)
    with cp q show ?thesis by (simp add: refreshPermissions_def Let_def)
  next
    case (Ret e)
    with cp q show ?thesis by (cases e) (simp_all add: refreshPermissions_def Let_def)
  qed
qed

lemma onRefreshTimers_quiet: "quiet (snd (snd (onRefreshTimers env i c)))"
  using refreshAllocation_quiet [of env "lifetime c" c] refreshPermissions_quiet [of env c]
  by (simp add: onRefreshTimers_def Let_def case_prod_beta)

lemma timer_fires_quiet: "quiet (snd (snd (timer_fires env now i c)))"
  by (simp add: timer_fires_def case_prod_beta onRefreshTimers_quiet)

lemma HandleInbound_quiet: "quiet (snd (HandleInbound d f c))"
  by (simp add: HandleInbound_def)

lemma Close_closed:
  assumes "closeCh c"
  shows "fst (Close env c) = Ret (Some already_closed)" and "snd (snd (Close env c)) = []"
  using assms by (simp_all add: Close_def Let_def already_closed_def)

lemma Close_open:
  assumes "\<not> closeCh c"
  shows "fst (Close env c) = Ret None"
    and "filter is_dealloc (snd (snd (Close env c))) = [EvDeallocated (relayedAddr c)]"
    and "filter is_teardown (snd (snd (Close env c))) =
           (case stun_Build env (refreshAllocation_setters 0) of
              Inl e \<Rightarrow> []
            | Inr m \<Rightarrow> [EvTransaction m (obs_TURNServerAddr env) True])"
proof -
  let ?c1 = "c\<lparr>refreshAllocTimer := Stop (refreshAllocTimer c),
                refreshPermsTimer := Stop (refreshPermsTimer c), closeCh := True\<rparr>"
  obtain r c2 evs where ra: "refreshAllocation env 0 True ?c1 = (r, c2, evs)"
    by (cases "refreshAllocation env 0 True ?c1") auto
  from refreshAllocation_teardown [of env 0 ?c1] ra obtain u where r: "r = Ret u"
    and d: "filter is_dealloc evs = []"
    and t: "filter is_teardown evs =
           (case stun_Build env (refreshAllocation_setters 0) of
              Inl e \<Rightarrow> []
            | Inr m \<Rightarrow> [EvTransaction m (obs_TURNServerAddr env) True])"
    by auto
  from refreshAllocation_state [of env 0 True ?c1] ra have c2: "c2 = ?c1"
    by simp
  from assms ra r d c2 show "fst (Close env c) = Ret None"
    and "filter is_dealloc (snd (snd (Close env c))) = [EvDeallocated (relayedAddr c)]"
    by (simp_all add: Close_def Let_def)
  from assms ra r t show "filter is_teardown (snd (snd (Close env c))) =
           (case stun_Build env (refreshAllocation_setters 0) of
              Inl e \<Rightarrow> []
            | Inr m \<Rightarrow> [EvTransaction m (obs_TURNServerAddr env) True])"
    by (simp add: Close_def Let_def)
qed

lemma step_not_Close:
  assumes "x \<noteq> CallClose"
  shows "\<not> is_RespClose (fst (step env now x c), evs)"
    and "quiet (snd (snd (step env now x c)))"
    and "closeCh (fst (snd (step env now x c))) = closeCh c"
proof -
  have "\<not> is_RespClose (fst (step env now x c), evs)
      \<and> quiet (snd (snd (step env now x c)))
      \<and> closeCh (fst (snd (step env now x c))) = closeCh c"
  proof (cases x)
    case (CallWriteTo p a)
    then show ?thesis by (simp add: case_prod_beta WriteTo_quiet WriteTo_frame)
  next
    case (CallReadFrom sel p)
    then show ?thesis by (simp add: case_prod_beta ReadFrom_frame)
  next
    case CallClose
    with assms show ?thesis by simp
  next
    case (CallSetDeadline t)
    then show ?thesis by (simp add: SetDeadline_def SetReadDeadline_def Let_def)
  next
    case (CallSetReadDeadline t)
    then show ?thesis by (simp add: SetReadDeadline_def Let_def)
  next
    case (CallSetWriteDeadline t)
    then show ?thesis by (simp add: SetWriteDeadline_def)
  next
    case (CallHandleInbound d f)
    then show ?thesis by (simp add: HandleInbound_def)
  next
    case (CallTimer i)
    then show ?thesis
      by (simp add: timer_fires_frame timer_fires_response timer_fires_quiet)
  qed
  then show "\<not> is_RespClose (fst (step env now x c), evs)"
    and "quiet (snd (snd (step env now x c)))"
    and "closeCh (fst (snd (step env now x c))) = closeCh c"
    by simp_all
qed

lemma step_relayedAddr:
  "relayedAddr (fst (snd (step env now x c))) = relayedAddr c"
proof (cases x)
  case (CallWriteTo p a)
  then show ?thesis by (simp add: case_prod_beta WriteTo_frame)
next
  case (CallReadFrom sel p)
  then show ?thesis by (simp add: case_prod_beta ReadFrom_frame)
next
  case CallClose
  then show ?thesis by (simp add: case_prod_beta Close_state)
next
  case (CallSetDeadline t)
  then show ?thesis by (simp add: SetDeadline_def SetReadDeadline_def Let_def)
next
  case (CallSetReadDeadline t)
  then show ?thesis by (simp add: SetReadDeadline_def Let_def)
next
  case (CallSetWriteDeadline t)
  then show ?thesis by (simp add: SetWriteDeadline_def)
next
  case (CallHandleInbound d f)
  then show ?thesis by (simp add: HandleInbound_def)
next
  case (CallTimer i)
  then show ?thesis
    by (simp add: timer_fires_frame)
qed

lemma snd_run_Nil [simp]: "snd (run [] c) = []"
  by simp

lemma snd_run_Cons:
  "snd (run ((env, now, x) # xs) c) =
     (fst (step env now x c), snd (snd (step env now x c)))
       # snd (run xs (fst (snd (step env now x c))))"
  by (simp add: case_prod_beta)

declare run.simps [simp del]

lemma events_of_simps [simp]:
  "events_of [] = []"
  "events_of (r # rs) = snd r @ events_of rs"
  "events_of (replicate k (x, [])) = []"
  by (simp_all add: events_of_def)

lemma closes_simps [simp]:
  "closes [] = 0"
  "closes ((env, now, x) # xs) = (if x = CallClose then Suc (closes xs) else closes xs)"
  by (simp_all add: closes_def)

lemma quiet_events_filter:
  assumes "quiet (events_of rs)"
  shows "quiet (events_of (filter P rs))"
  using assms by (induction rs) auto

lemma run_closed:
  assumes "closeCh c"
  shows "filter is_RespClose (snd (run xs c))
           = replicate (closes xs) (RespClose (Ret (Some already_closed)), [])
       \<and> quiet (events_of (snd (run xs c)))"
  using assms
proof (induction xs arbitrary: c)
  case Nil
  then show ?case by simp
next
  case (Cons x xs)
  obtain env now y where x: "x = (env, now, y)" by (cases x) auto
  let ?c' = "fst (snd (step env now y c))"
  let ?r = "fst (step env now y c)"
  let ?evs = "snd (snd (step env now y c))"
  have run: "snd (run (x # xs) c) = (?r, ?evs) # snd (run xs ?c')"
    using x by (simp add: snd_run_Cons)
  show ?case
  proof (cases "y = CallClose")
    case True
    have c': "closeCh ?c'"
      using True by (simp add: case_prod_beta Close_state)
    have r: "?r = RespClose (Ret (Some already_closed))" "?evs = []"
      using True Close_closed [OF Cons.prems, of env] by (simp_all add: case_prod_beta)
    have cl: "closes (x # xs) = Suc (closes xs)"
      using True x by simp
    from Cons.IH [OF c'] show ?thesis
      by (simp add: run r cl)
  next
    case False
    from step_not_Close [OF False, of env now c] Cons.prems
    have n: "\<not> is_RespClose (?r, ?evs)" and q: "quiet ?evs" and c': "closeCh ?c'"
      by simp_all
    have cl: "closes (x # xs) = closes xs"
      using False x by simp
    from Cons.IH [OF c'] n q show ?thesis
      by (simp add: run cl)
  qed
qed

lemma refreshAllocation_setters_literal:
  "refreshAllocation_setters lt =
     [TransactionID, SetType (MethodRefresh, ClassRequest), RequestedTransportUDP, Lifetime lt,
      Fingerprint]"
  by (simp add: refreshAllocation_setters_def NewType_def)

text \<open>Claim C7, as amended. In any run that starts from a connection whose close channel
  is open (a fresh connection is one): the first call of Close returns nil and every later
  one the error ``already closed''; the owner is notified of the deallocation of the
  relayed address exactly once if Close is called at all; the only fire-and-forget
  transaction of the whole run is the teardown refresh of the first Close, the request
  built from a refresh type and the lifetime 0: it is performed once when the message
  builder builds the request in the environment of that call, and not at all when the
  builder fails; the calls of Close after the first do nothing that can be observed, and
  no call other than Close notifies the owner or performs a fire-and-forget
  transaction.\<close>

theorem Close_acts_once:
  assumes "\<not> closeCh c"
  shows "map fst (filter is_RespClose (snd (run xs c)))
           = (case closes xs of
                0 \<Rightarrow> []
              | Suc k \<Rightarrow> RespClose (Ret None) # replicate k (RespClose (Ret (Some already_closed))))
       \<and> filter is_dealloc (events_of (snd (run xs c)))
           = (if closes xs = 0 then [] else [EvDeallocated (relayedAddr c)])
       \<and> filter is_teardown (events_of (snd (run xs c)))
           = (case first_close xs of
                None \<Rightarrow> []
              | Some env \<Rightarrow>
                  (case stun_Build env
                          [TransactionID, SetType (MethodRefresh, ClassRequest),
                           RequestedTransportUDP, Lifetime 0, Fingerprint] of
                     Inl e \<Rightarrow> []
                   | Inr m \<Rightarrow> [EvTransaction m (obs_TURNServerAddr env) True]))
       \<and> events_of (tl (filter is_RespClose (snd (run xs c)))) = []
       \<and> quiet (events_of (filter (\<lambda>r. \<not> is_RespClose r) (snd (run xs c))))"
  using assms
proof (induction xs arbitrary: c)
  case Nil
  then show ?case by simp
next
  case (Cons x xs)
  obtain env now y where x: "x = (env, now, y)" by (cases x) auto
  let ?c' = "fst (snd (step env now y c))"
  let ?r = "fst (step env now y c)"
  let ?evs = "snd (snd (step env now y c))"
  let ?rs = "snd (run xs ?c')"
  have run: "snd (run (x # xs) c) = (?r, ?evs) # ?rs"
    using x by (simp add: snd_run_Cons)
  show ?case
  proof (cases "y = CallClose")
    case True
    have c': "closeCh ?c'"
      using True by (simp add: case_prod_beta Close_state)
    have r: "?r = RespClose (Ret None)"
      and d: "filter is_dealloc ?evs = [EvDeallocated (relayedAddr c)]"
      and t: "filter is_teardown ?evs =
           (case stun_Build env
                          [TransactionID, SetType (MethodRefresh, ClassRequest),
                           RequestedTransportUDP, Lifetime 0, Fingerprint] of
              Inl e \<Rightarrow> []
            | Inr m \<Rightarrow> [EvTransaction m (obs_TURNServerAddr env) True])"
      using True Close_open [OF Cons.prems, of env]
      by (simp_all add: case_prod_beta refreshAllocation_setters_literal)
    from run_closed [OF c', of xs]
    have f: "filter is_RespClose ?rs = replicate (closes xs) (RespClose (Ret (Some already_closed)), [])"
      and q: "quiet (events_of ?rs)"
      by simp_all
    have cl: "closes (x # xs) = Suc (closes xs)" and fc: "first_close (x # xs) = Some env"
      using True x by simp_all
    have 1: "map fst (filter is_RespClose (snd (run (x # xs) c)))
               = RespClose (Ret None) # replicate (closes xs) (RespClose (Ret (Some already_closed)))"
      by (simp add: run r f)
    have 2: "filter is_dealloc (events_of (snd (run (x # xs) c))) = [EvDeallocated (relayedAddr c)]"
      using quietD(1) [OF q] by (simp add: run d)
    have 3: "filter is_teardown (events_of (snd (run (x # xs) c))) = filter is_teardown ?evs"
      using quietD(2) [OF q] by (simp add: run)
    have 6: "events_of (tl (filter is_RespClose (snd (run (x # xs) c)))) = []"
      by (simp add: run r f)
    have 7: "quiet (events_of (filter (\<lambda>r. \<not> is_RespClose r) (snd (run (x # xs) c))))"
      using quiet_events_filter [OF q] by (simp add: run r)
    from 1 2 3 6 7 show ?thesis
      by (simp add: cl fc t)
  next
    case False
    from step_not_Close [OF False, of env now c] Cons.prems
    have n: "\<not> is_RespClose (?r, ?evs)" and q: "quiet ?evs" and c': "\<not> closeCh ?c'"
      by simp_all
    have cl: "closes (x # xs) = closes xs" and fc: "first_close (x # xs) = first_close xs"
      using False x by simp_all
    from Cons.IH [OF c'] n q quietD [OF q] show ?thesis
      by (simp add: run cl fc step_relayedAddr)
  qed
qed

theorem Close_acts_once_witness:
  "\<not> closeCh demo_conn
   \<and> map fst (filter is_RespClose (snd (run close_thrice demo_conn)))
       = [RespClose (Ret None), RespClose (Ret (Some already_closed)),
          RespClose (Ret (Some already_closed))]
   \<and> filter is_dealloc (events_of (snd (run close_thrice demo_conn)))
       = [EvDeallocated (UDPAddr ''198.51.100.7'' 50000)]
   \<and> filter is_teardown (events_of (snd (run close_thrice demo_conn)))
       = [EvTransaction demo_teardown_request demo_server True]"
proof -
  have h: "\<not> closeCh demo_conn"
    by (simp add: demo_conn_simps)
  have n: "closes close_thrice = Suc (Suc (Suc 0))"
    and f: "first_close close_thrice = Some (demo_env tr_success)"
    by (simp_all add: close_thrice_def)
  have b: "stun_Build (demo_env tr_success)
             [TransactionID, SetType (MethodRefresh, ClassRequest), RequestedTransportUDP,
              Lifetime 0, Fingerprint] = Inr demo_teardown_request"
    "obs_TURNServerAddr (demo_env tr_success) = demo_server"
    by (simp_all add: demo_env_def demo_Build_def demo_teardown_request_def)
  show ?thesis
    using h Close_acts_once [OF h, of close_thrice]
    by (simp add: n f b demo_conn_simps)
qed

text \<open>Claim C7 as stated fails where the message builder fails: the first Close logs
  the failure of building the refresh request, performs no transaction at all, notifies
  the owner and returns nil, so the teardown refresh exchange is performed not once but
  never.\<close>

theorem Close_teardown_counterexample:
  "fst (Close failing_Build_env demo_conn) = Ret None
   \<and> snd (snd (Close failing_Build_env demo_conn))
       = [EvLog LError ''failed to build refresh request: %s'',
          EvDeallocated (UDPAddr ''198.51.100.7'' 50000)]
   \<and> filter is_transaction (snd (snd (Close failing_Build_env demo_conn))) = []"
  by (simp add: Close_def refreshAllocation_def failing_Build_env_def demo_conn_simps Let_def)

section \<open>The allocation-refresh timer\<close>


lemma timer_fires_timers:
  "timers_like (fst (snd (timer_fires env now i c))) c"
  using onRefreshTimers_state [of env i "c\<lparr>refreshAllocTimer := pt_fired (refreshAllocTimer c)\<rparr>"]
    onRefreshTimers_state [of env i "c\<lparr>refreshPermsTimer := pt_fired (refreshPermsTimer c)\<rparr>"]
  by (auto simp add: timers_like_def timer_fires_def case_prod_beta pt_fired_def)

lemma step_timers:
  "timers_like (fst (snd (step env now x c))) c"
proof (cases x)
  case (CallWriteTo p a)
  then show ?thesis by (simp add: timers_like_def case_prod_beta WriteTo_frame)
next
  case (CallReadFrom sel p)
  then show ?thesis by (simp add: timers_like_def case_prod_beta ReadFrom_frame)
next
  case CallClose
  then show ?thesis by (simp add: timers_like_def case_prod_beta Close_state Stop_def)
next
  case (CallSetDeadline t)
  then show ?thesis by (simp add: timers_like_def SetDeadline_def SetReadDeadline_def Let_def)
next
  case (CallSetReadDeadline t)
  then show ?thesis by (simp add: timers_like_def SetReadDeadline_def Let_def)
next
  case (CallSetWriteDeadline t)
  then show ?thesis by (simp add: timers_like_def SetWriteDeadline_def)
next
  case (CallHandleInbound d f)
  then show ?thesis by (simp add: timers_like_def HandleInbound_def)
next
  case (CallTimer i)
  then show ?thesis by (simp add: timer_fires_timers)
qed

lemma final_timers:
  "timers_like (final xs c) c"
proof (induction xs arbitrary: c)
  case Nil
  show ?case by (simp add: timers_like_def)
next
  case (Cons x xs)
  obtain env now y where x: "x = (env, now, y)" by (cases x) auto
  from Cons.IH [of "fst (snd (step env now y c))"] step_timers [of env now y c] x show ?case
    by (simp add: timers_like_def del: step.simps)
qed

lemma NewUDPConn_timers:
  "pt_id (refreshAllocTimer (fst (NewUDPConn t0 config))) = timerIDRefreshAlloc"
  "pt_interval (refreshAllocTimer (fst (NewUDPConn t0 config))) = cfg_Lifetime config sdiv 2"
  "pt_id (refreshPermsTimer (fst (NewUDPConn t0 config))) = timerIDRefreshPerms"
  "pt_next (refreshAllocTimer (fst (NewUDPConn t0 config))) = t0 + cfg_Lifetime config sdiv 2"
  by (simp_all add: NewUDPConn_def Start_def NewPeriodicTimer_def case_prod_beta)

lemma reachable_timers:
  "pt_id (refreshAllocTimer (final xs (fst (NewUDPConn t0 config)))) = timerIDRefreshAlloc"
  "pt_interval (refreshAllocTimer (final xs (fst (NewUDPConn t0 config)))) = cfg_Lifetime config sdiv 2"
  "pt_id (refreshPermsTimer (final xs (fst (NewUDPConn t0 config)))) = timerIDRefreshPerms"
  using final_timers [of xs "fst (NewUDPConn t0 config)"]
  by (simp_all add: timers_like_def NewUDPConn_timers)

lemma refreshAllocation_success:
  assumes "stun_Build env
             [TransactionID, SetType (MethodRefresh, ClassRequest), RequestedTransportUDP,
              Lifetime lt, Fingerprint] = Inr msg"
    and "obs_PerformTransaction env msg (obs_TURNServerAddr env) False = (tr, None)"
    and "Msg tr = Some res"
    and "find_Lifetime (Attributes res) = Some d"
  shows "refreshAllocation env lt False c =
           (Ret (), c\<lparr>lifetime := d\<rparr>,
            [EvTransaction msg (obs_TURNServerAddr env) False,
             EvLog LDebug ''updated lifetime: %d seconds''])"
  using assms by (simp add: refreshAllocation_def refreshAllocation_setters_literal Let_def)

lemma refreshAllocation_request:
  assumes "stun_Build env
             [TransactionID, SetType (MethodRefresh, ClassRequest), RequestedTransportUDP,
              Lifetime lt, Fingerprint] = Inr msg"
  shows "\<exists>rest. snd (snd (refreshAllocation env lt False c))
                  = EvTransaction msg (obs_TURNServerAddr env) False # rest"
  using assms
  by (simp add: refreshAllocation_def refreshAllocation_setters_literal Let_def case_prod_beta
      split: option.splits)

lemma alloc_timer_fires:
  assumes "pt_id (refreshAllocTimer c) = timerIDRefreshAlloc"
    and "pt_due now (refreshAllocTimer c)"
  shows "step env now (CallTimer timerIDRefreshAlloc) c =
           (RespTimer (fst (refreshAllocation env (lifetime c) False
                              (c\<lparr>refreshAllocTimer := pt_fired (refreshAllocTimer c)\<rparr>))),
            fst (snd (refreshAllocation env (lifetime c) False
                        (c\<lparr>refreshAllocTimer := pt_fired (refreshAllocTimer c)\<rparr>))),
            EvLog LDebug ''refresh timer %d expired''
              # snd (snd (refreshAllocation env (lifetime c) False
                            (c\<lparr>refreshAllocTimer := pt_fired (refreshAllocTimer c)\<rparr>))))"
  using assms by (simp add: timer_fires_def onRefreshTimers_def Let_def case_prod_beta)

lemma alloc_timer_waits:
  assumes "pt_id (refreshAllocTimer c) = timerIDRefreshAlloc"
    and "pt_id (refreshPermsTimer c) = timerIDRefreshPerms"
    and "\<not> pt_due now (refreshAllocTimer c)"
  shows "step env now (CallTimer timerIDRefreshAlloc) c = (RespNone, c, [])"
  using assms
  by (simp add: timer_fires_def timerIDRefreshAlloc_def timerIDRefreshPerms_def)

text \<open>Claim C9, as amended. The period of the allocation-refresh timer is fixed when the
  connection is constructed: it is the construction-time lifetime divided by two, and no
  refresh changes it. In any state reached from the constructor in which the timer is due,
  a refresh exchange that succeeds stores the lifetime the server returned and moves the
  due time on by the construction-time lifetime divided by two, whatever lifetime the
  server returned. Before that time the timer does nothing; from that time on it fires,
  and the request it sends carries the updated lifetime.\<close>

theorem refresh_keeps_construction_period:
  assumes "c = final xs (fst (NewUDPConn t0 config))"
    and "pt_due now (refreshAllocTimer c)"
    and "stun_Build env
           [TransactionID, SetType (MethodRefresh, ClassRequest), RequestedTransportUDP,
            Lifetime (lifetime c), Fingerprint] = Inr msg"
    and "obs_PerformTransaction env msg (obs_TURNServerAddr env) False = (tr, None)"
    and "Msg tr = Some res"
    and "find_Lifetime (Attributes res) = Some d"
  shows "step env now (CallTimer timerIDRefreshAlloc) c
           = (RespTimer (Ret ()),
              c\<lparr>refreshAllocTimer :=
                   (refreshAllocTimer c)
                     \<lparr>pt_next := pt_next (refreshAllocTimer c) + cfg_Lifetime config sdiv 2\<rparr>,
                lifetime := d\<rparr>,
              [EvLog LDebug ''refresh timer %d expired'',
               EvTransaction msg (obs_TURNServerAddr env) False,
               EvLog LDebug ''updated lifetime: %d seconds''])
       \<and> (\<forall>env' now'.
             now' < pt_next (refreshAllocTimer c) + cfg_Lifetime config sdiv 2
             \<longrightarrow> step env' now' (CallTimer timerIDRefreshAlloc)
                   (fst (snd (step env now (CallTimer timerIDRefreshAlloc) c)))
                 = (RespNone, fst (snd (step env now (CallTimer timerIDRefreshAlloc) c)), []))
       \<and> (\<forall>env' now' msg'.
             pt_next (refreshAllocTimer c) + cfg_Lifetime config sdiv 2 \<le> now'
             \<and> stun_Build env'
                  [TransactionID, SetType (MethodRefresh, ClassRequest), RequestedTransportUDP,
                   Lifetime d, Fingerprint] = Inr msg'
             \<longrightarrow> (\<exists>rest. snd (snd (step env' now' (CallTimer timerIDRefreshAlloc)
                                     (fst (snd (step env now (CallTimer timerIDRefreshAlloc) c)))))
                          = EvLog LDebug ''refresh timer %d expired''
                              # EvTransaction msg' (obs_TURNServerAddr env') False # rest))"
proof -
  let ?L = "cfg_Lifetime config sdiv 2"
  let ?c' = "c\<lparr>refreshAllocTimer := (refreshAllocTimer c)\<lparr>pt_next := pt_next (refreshAllocTimer c) + ?L\<rparr>,
                lifetime := d\<rparr>"
  have ids: "pt_id (refreshAllocTimer c) = timerIDRefreshAlloc"
    "pt_interval (refreshAllocTimer c) = ?L"
    "pt_id (refreshPermsTimer c) = timerIDRefreshPerms"
    unfolding assms(1) by (simp_all add: reachable_timers)
  have f: "pt_fired (refreshAllocTimer c)
             = (refreshAllocTimer c)\<lparr>pt_next := pt_next (refreshAllocTimer c) + ?L\<rparr>"
    by (simp add: pt_fired_def ids)
  have s: "step env now (CallTimer timerIDRefreshAlloc) c
           = (RespTimer (Ret ()), ?c',
              [EvLog LDebug ''refresh timer %d expired'',
               EvTransaction msg (obs_TURNServerAddr env) False,
               EvLog LDebug ''updated lifetime: %d seconds''])"
    using alloc_timer_fires [OF ids(1) assms(2), of env]
      refreshAllocation_success [OF assms(3-6),
        of "c\<lparr>refreshAllocTimer := pt_fired (refreshAllocTimer c)\<rparr>"]
    by (simp add: f del: step.simps)
  have ids': "pt_id (refreshAllocTimer ?c') = timerIDRefreshAlloc"
    "pt_id (refreshPermsTimer ?c') = timerIDRefreshPerms"
    by (simp_all add: ids)
  have run: "pt_running (refreshAllocTimer c)"
    using assms(2) by (simp add: pt_due_def)
  have waits: "step env' now' (CallTimer timerIDRefreshAlloc) ?c' = (RespNone, ?c', [])"
    if "now' < pt_next (refreshAllocTimer c) + ?L" for env' now'
    using that by (intro alloc_timer_waits [OF ids']) (simp add: pt_due_def)
  have fires: "\<exists>rest. snd (snd (step env' now' (CallTimer timerIDRefreshAlloc) ?c'))
                 = EvLog LDebug ''refresh timer %d expired''
                     # EvTransaction msg' (obs_TURNServerAddr env') False # rest"
    if "pt_next (refreshAllocTimer c) + ?L \<le> now'"
      and b: "stun_Build env'
                  [TransactionID, SetType (MethodRefresh, ClassRequest), RequestedTransportUDP,
                   Lifetime d, Fingerprint] = Inr msg'" for env' now' msg'
  proof -
    have due: "pt_due now' (refreshAllocTimer ?c')"
      using that(1) run by (simp add: pt_due_def)
    from refreshAllocation_request [OF b,
        of "?c'\<lparr>refreshAllocTimer := pt_fired (refreshAllocTimer ?c')\<rparr>"]
    show ?thesis
      using alloc_timer_fires [OF ids'(1) due, of env'] by (auto simp del: step.simps)
  qed
  show ?thesis
    unfolding s using waits fires by (simp del: step.simps)
qed

lemma refresh_longer_state:
  "final refresh_longer demo_conn
     = demo_conn\<lparr>refreshAllocTimer :=
                   \<lparr>pt_id = 0, pt_interval = 300 * Second, pt_running = True,
                    pt_next = 600 * Second\<rparr>,
                 lifetime := 1200 * Second\<rparr>"
  by (simp add: refresh_longer_def timer_fires_def pt_due_def pt_fired_def demo_conn_simps
      timerIDRefreshAlloc_def onRefreshTimers_def refreshAllocation_def
      refreshAllocation_setters_def NewType_def demo_env_def demo_Build_def tr_lifetime_def
      tr_reply_def Let_def Second_def)

text \<open>Claim C9 as stated fails. The connection is constructed at time 0 with a lifetime of
  600 s, the timer fires at 300 s and the server answers the refresh with 1200 s. The
  stored lifetime is then 1200 s, and the next refresh is due at 600 s, one
  construction-time half-lifetime later, not at 900 s; at 600 s the timer does fire.\<close>

theorem refresh_period_counterexample:
  "lifetime (final refresh_longer demo_conn) = 1200 * Second
   \<and> pt_next (refreshAllocTimer (final refresh_longer demo_conn)) = 600 * Second
   \<and> pt_next (refreshAllocTimer (final refresh_longer demo_conn))
       \<noteq> 300 * Second + lifetime (final refresh_longer demo_conn) sdiv 2
   \<and> fst (step (demo_env tr_success) (600 * Second) (CallTimer timerIDRefreshAlloc)
        (final refresh_longer demo_conn)) = RespTimer (Ret ())"
  by (simp add: refresh_longer_state timer_fires_def pt_due_def pt_fired_def demo_conn_simps
      timerIDRefreshAlloc_def onRefreshTimers_def refreshAllocation_def
      refreshAllocation_setters_def NewType_def demo_env_def demo_Build_def tr_success_def
      tr_reply_def Let_def Second_def signed_divide_int_def)


theorem refresh_keeps_construction_period_witness:
  "demo_conn = final [] (fst (NewUDPConn 0 demo_config))
   \<and> pt_due (300 * Second) (refreshAllocTimer demo_conn)
   \<and> step (demo_env (tr_lifetime (1200 * Second))) (300 * Second)
         (CallTimer timerIDRefreshAlloc) demo_conn
       = (RespTimer (Ret ()),
          demo_conn\<lparr>refreshAllocTimer :=
                      (refreshAllocTimer demo_conn)\<lparr>pt_next := 600 * Second\<rparr>,
                    lifetime := 1200 * Second\<rparr>,
          [EvLog LDebug ''refresh timer %d expired'',
           EvTransaction (demo_refresh_request (600 * Second)) demo_server False,
           EvLog LDebug ''updated lifetime: %d seconds''])
   \<and> step (demo_env tr_success) (600 * Second - 1) (CallTimer timerIDRefreshAlloc)
         (fst (snd (step (demo_env (tr_lifetime (1200 * Second))) (300 * Second)
                      (CallTimer timerIDRefreshAlloc) demo_conn)))
       = (RespNone,
          fst (snd (step (demo_env (tr_lifetime (1200 * Second))) (300 * Second)
                      (CallTimer timerIDRefreshAlloc) demo_conn)),
          [])
   \<and> (\<exists>rest. snd (snd (step (demo_env tr_success) (600 * Second)
                          (CallTimer timerIDRefreshAlloc)
                          (fst (snd (step (demo_env (tr_lifetime (1200 * Second)))
                                       (300 * Second) (CallTimer timerIDRefreshAlloc)
                                       demo_conn)))))
               = EvLog LDebug ''refresh timer %d expired''
                   # EvTransaction (demo_refresh_request (1200 * Second)) demo_server False
                   # rest)"
proof -
  let ?env = "demo_env (tr_lifetime (1200 * Second))"
  let ?res = "\<lparr>Type = (MethodRefresh, ClassSuccessResponse),
               Attributes = [Lifetime (1200 * Second)], Raw = []\<rparr>"
  have h1: "demo_conn = final [] (fst (NewUDPConn 0 demo_config))"
    by (simp add: demo_conn_def)
  have h2: "pt_due (300 * Second) (refreshAllocTimer demo_conn)"
    by (simp add: pt_due_def demo_conn_simps)
  have h3: "stun_Build ?env
              [TransactionID, SetType (MethodRefresh, ClassRequest), RequestedTransportUDP,
               Lifetime (lifetime demo_conn), Fingerprint]
              = Inr (demo_refresh_request (600 * Second))"
    by (simp add: demo_env_def demo_Build_def demo_refresh_request_def NewType_def
        demo_conn_simps)
  have h4: "obs_PerformTransaction ?env (demo_refresh_request (600 * Second))
              (obs_TURNServerAddr ?env) False
              = (\<lparr>Msg = Some ?res\<rparr>, None)"
    by (simp add: demo_env_def tr_lifetime_def tr_reply_def demo_refresh_request_def)
  have h5: "Msg \<lparr>Msg = Some ?res\<rparr> = Some ?res"
    by simp
  have h6: "find_Lifetime (Attributes ?res) = Some (1200 * Second)"
    by simp
  have h7: "stun_Build (demo_env tr_success)
              [TransactionID, SetType (MethodRefresh, ClassRequest), RequestedTransportUDP,
               Lifetime (1200 * Second), Fingerprint]
              = Inr (demo_refresh_request (1200 * Second))"
    by (simp add: demo_env_def demo_Build_def demo_refresh_request_def NewType_def)
  have l: "pt_next (refreshAllocTimer demo_conn) + cfg_Lifetime demo_config sdiv 2
             = 600 * Second"
    by (simp add: demo_conn_simps demo_config_def Second_def signed_divide_int_def)
  have s: "obs_TURNServerAddr ?env = demo_server"
    "obs_TURNServerAddr (demo_env tr_success) = demo_server"
    by (simp_all add: demo_env_def)
  note t = refresh_keeps_construction_period [OF h1 h2 h3 h4 h5 h6, unfolded l s]
  have b: "600 * Second - 1 < 600 * Second"
    by simp
  have e: "600 * Second \<le> 600 * Second"
    by simp
  from t have t1: "step ?env (300 * Second) (CallTimer timerIDRefreshAlloc) demo_conn
       = (RespTimer (Ret ()),
          demo_conn\<lparr>refreshAllocTimer :=
                      (refreshAllocTimer demo_conn)\<lparr>pt_next := 600 * Second\<rparr>,
                    lifetime := 1200 * Second\<rparr>,
          [EvLog LDebug ''refresh timer %d expired'',
           EvTransaction (demo_refresh_request (600 * Second)) demo_server False,
           EvLog LDebug ''updated lifetime: %d seconds''])"
    by (rule conjunct1)
  from t have t2: "step (demo_env tr_success) (600 * Second - 1) (CallTimer timerIDRefreshAlloc)
         (fst (snd (step ?env (300 * Second) (CallTimer timerIDRefreshAlloc) demo_conn)))
       = (RespNone,
          fst (snd (step ?env (300 * Second) (CallTimer timerIDRefreshAlloc) demo_conn)), [])"
    using b by blast
  from t have t3: "\<exists>rest. snd (snd (step (demo_env tr_success) (600 * Second)
                          (CallTimer timerIDRefreshAlloc)
                          (fst (snd (step ?env (300 * Second) (CallTimer timerIDRefreshAlloc)
                                       demo_conn)))))
               = EvLog LDebug ''refresh timer %d expired''
                   # EvTransaction (demo_refresh_request (1200 * Second))
                       (obs_TURNServerAddr (demo_env tr_success)) False
                   # rest"
    using e h7 by blast
  from h1 h2 t1 t2 t3 [unfolded s] show ?thesis
    by blast
qed

section \<open>Read deadlines\<close>

text \<open>Claim C8, at the inputs where the code departs from it. One datagram of four bytes
  is queued and the read deadline is set five nanoseconds in the past. The timer has its
  tick, and a read that takes the timer case returns the timeout error; but the receive
  case of the same select can proceed as well, and the read that takes it returns the
  datagram with a nil error after the deadline. With nothing queued, the first read
  after a deadline in the past returns the timeout error and consumes the tick: at the
  read after it no case of the select can proceed, although the deadline still lies in the
  past.\<close>

theorem past_read_deadline_reads:
  "fst (SetReadDeadline (demo_env tr_success) 10 demo_past queued_conn) = None
   \<and> fst (ReadFrom 10 SelReadTimer [0, 0, 0, 0]
        (snd (SetReadDeadline (demo_env tr_success) 10 demo_past queued_conn)))
       = Returned 0 None (Some (ioTimeoutError queued_conn))
   \<and> fst (ReadFrom 10 SelReadCh [0, 0, 0, 0]
        (snd (SetReadDeadline (demo_env tr_success) 10 demo_past queued_conn)))
       = Returned 4 (Some peerA) None
   \<and> fst (ReadFrom 11 SelReadTimer [0, 0, 0, 0]
        (snd (SetReadDeadline (demo_env tr_success) 10 demo_past demo_conn)))
       = Returned 0 None (Some (ioTimeoutError demo_conn))
   \<and> fst (ReadFrom 12 SelReadTimer [0, 0, 0, 0]
        (snd (snd (ReadFrom 11 SelReadTimer [0, 0, 0, 0]
           (snd (SetReadDeadline (demo_env tr_success) 10 demo_past demo_conn))))))
       = Blocked
   \<and> fst (ReadFrom 12 SelReadCh [0, 0, 0, 0]
        (snd (snd (ReadFrom 11 SelReadTimer [0, 0, 0, 0]
           (snd (SetReadDeadline (demo_env tr_success) 10 demo_past demo_conn))))))
       = Blocked
   \<and> fst (ReadFrom 12 SelCloseCh [0, 0, 0, 0]
        (snd (snd (ReadFrom 11 SelReadTimer [0, 0, 0, 0]
           (snd (SetReadDeadline (demo_env tr_success) 10 demo_past demo_conn))))))
       = Blocked"
  by (simp add: ReadFrom_def SetReadDeadline_def Let_def queued_conn_simps demo_conn_simps
      go_copy_def Reset_def fire_def timer_when_def Until_def noDeadline_def MaxInt64_def
      MinInt64_def ioTimeoutError_def LocalAddr_def demo_env_def demo_now_def demo_past_def)

section \<open>Concurrent writes to a new peer\<close>

lemma demo_createPermissions:
  "createPermissions (demo_env tr_success) demo_conn [peerA]
     = (Ret None, [EvTransaction demo_perm_request demo_server False])"
  by (simp add: createPermissions_def createPermissions_setters_def NewType_def demo_defs
      demo_conn_simps demo_perm_request_def addr2PeerAddress_def Let_def)

text \<open>Claim C10, at the input where the code departs from it. Two goroutines write to
  the same new peer and every exchange succeeds. When they take their steps in turns,
  both find no permission before either inserts one; each makes a permission of its own
  (the second insert replaces the first in the map), locks the mutex of its own
  permission, finds it idle and performs the exchange: two create-permission requests
  go out, and neither goroutine ever waits for the other. When the second goroutine
  starts after the first has left the function block, it finds the permission of the
  first, and one request goes out, the one of two writes in sequence.\<close>

theorem concurrent_writers_duplicate_request:
  "writers_run (demo_env tr_success) demo_conn in_turns (two_writers peerA)
     = \<lparr>heap = [\<lparr>perm_state = permStatePermitted, perm_mutex = False\<rparr>,
                \<lparr>perm_state = permStatePermitted, perm_mutex = False\<rparr>],
        perms = [(peerA, 1)],
        wire = [EvTransaction demo_perm_request demo_server False,
                EvTransaction demo_perm_request demo_server False],
        goroutines = [\<lparr>w_addr = peerA, w_pc = AtReturn, w_perm = 0, w_err = Ret None\<rparr>,
                      \<lparr>w_addr = peerA, w_pc = AtReturn, w_perm = 1, w_err = Ret None\<rparr>]\<rparr>
   \<and> writers_run (demo_env tr_success) demo_conn one_after_the_other (two_writers peerA)
     = \<lparr>heap = [\<lparr>perm_state = permStatePermitted, perm_mutex = False\<rparr>],
        perms = [(peerA, 0)],
        wire = [EvTransaction demo_perm_request demo_server False],
        goroutines = [\<lparr>w_addr = peerA, w_pc = AtReturn, w_perm = 0, w_err = Ret None\<rparr>,
                      \<lparr>w_addr = peerA, w_pc = AtReturn, w_perm = 0, w_err = Ret None\<rparr>]\<rparr>
   \<and> snd (snd (WriteTo_permission (demo_env tr_success) peerA demo_conn))
       @ snd (snd (WriteTo_permission (demo_env tr_success) peerA
                     (fst (snd (WriteTo_permission (demo_env tr_success) peerA demo_conn)))))
     = [EvTransaction demo_perm_request demo_server False]"
proof (intro conjI)
  show "writers_run (demo_env tr_success) demo_conn in_turns (two_writers peerA)
     = \<lparr>heap = [\<lparr>perm_state = permStatePermitted, perm_mutex = False\<rparr>,
                \<lparr>perm_state = permStatePermitted, perm_mutex = False\<rparr>],
        perms = [(peerA, 1)],
        wire = [EvTransaction demo_perm_request demo_server False,
                EvTransaction demo_perm_request demo_server False],
        goroutines = [\<lparr>w_addr = peerA, w_pc = AtReturn, w_perm = 0, w_err = Ret None\<rparr>,
                      \<lparr>w_addr = peerA, w_pc = AtReturn, w_perm = 1, w_err = Ret None\<rparr>]\<rparr>"
    by (simp add: in_turns_def two_writers_def new_writer_def writer_step_def set_writer_def
        demo_createPermissions Let_def)
  show "writers_run (demo_env tr_success) demo_conn one_after_the_other (two_writers peerA)
     = \<lparr>heap = [\<lparr>perm_state = permStatePermitted, perm_mutex = False\<rparr>],
        perms = [(peerA, 0)],
        wire = [EvTransaction demo_perm_request demo_server False],
        goroutines = [\<lparr>w_addr = peerA, w_pc = AtReturn, w_perm = 0, w_err = Ret None\<rparr>,
                      \<lparr>w_addr = peerA, w_pc = AtReturn, w_perm = 0, w_err = Ret None\<rparr>]\<rparr>"
    by (simp add: one_after_the_other_def two_writers_def new_writer_def writer_step_def
        set_writer_def demo_createPermissions Let_def)
  show "snd (snd (WriteTo_permission (demo_env tr_success) peerA demo_conn))
       @ snd (snd (WriteTo_permission (demo_env tr_success) peerA
                     (fst (snd (WriteTo_permission (demo_env tr_success) peerA demo_conn)))))
     = [EvTransaction demo_perm_request demo_server False]"
    by (simp add: WriteTo_permission_def demo_createPermissions demo_conn_simps
        permMap_find_def permMap_insert_def Let_def)
qed

section \<open>Further properties of the connection\<close>

text \<open>Property X1. A write to an address that is not a UDP address fails at once: it returns
  \<open>(0, error)\<close>, changes nothing and calls neither the observer nor the logger.\<close>

theorem WriteTo_rejects_other_addresses:
  assumes "\<not> is_UDPAddr a"
  shows "WriteTo env p a c = (Ret (0, Some (Errorf ''addr is not a net.UDPAddr'' [])), c, [])"
  using assms by (simp add: WriteTo_def)

theorem WriteTo_rejects_other_addresses_witness:
  "\<not> is_UDPAddr (TCPAddr ''203.0.113.5'' 4000)
   \<and> WriteTo (demo_env tr_success) [1, 2, 3] (TCPAddr ''203.0.113.5'' 4000) demo_conn
       = (Ret (0, Some (Errorf ''addr is not a net.UDPAddr'' [])), demo_conn, [])"
proof -
  have h: "\<not> is_UDPAddr (TCPAddr ''203.0.113.5'' 4000)"
    by simp
  show ?thesis
    using h WriteTo_rejects_other_addresses [OF h, of "demo_env tr_success" "[1, 2, 3]" demo_conn]
    by simp
qed

text \<open>Property X2. The read queue never grows beyond \<open>maxReadQueueSize\<close>: \<open>HandleInbound\<close> appends the
  datagram while there is room, and on a full queue drops it, leaving the state as it is
  and logging a warning.\<close>

theorem HandleInbound_bounded:
  assumes "length (readCh c) \<le> maxReadQueueSize"
  shows "length (readCh (fst (HandleInbound d f c))) \<le> maxReadQueueSize
       \<and> (if length (readCh c) = maxReadQueueSize
          then HandleInbound d f c = (c, [EvLog LWarn ''receive buffer full''])
          else HandleInbound d f c = (c\<lparr>readCh := readCh c @ [\<lparr>ib_data = d, ib_from = f\<rparr>]\<rparr>, []))"
  using assms by (simp add: HandleInbound_def)

theorem HandleInbound_bounded_witness:
  "length (readCh queued_conn) \<le> maxReadQueueSize
   \<and> readCh (fst (HandleInbound [5, 6] peerA queued_conn))
       = [\<lparr>ib_data = [1, 2, 3, 4], ib_from = peerA\<rparr>, \<lparr>ib_data = [5, 6], ib_from = peerA\<rparr>]"
proof -
  have h: "length (readCh queued_conn) \<le> maxReadQueueSize"
    by (simp add: queued_conn_simps maxReadQueueSize_def)
  show ?thesis
    using h HandleInbound_bounded [OF h, of "[5, 6]" peerA]
    by (simp add: queued_conn_simps maxReadQueueSize_def)
qed

text \<open>Property X3. The first write to a peer that has no binding yet, when it succeeds, sends the
  payload in a send indication, also when the channel-bind exchange of that very call
  succeeded: channel data is used from the next write on.\<close>

theorem first_write_sends_indication:
  assumes "findByAddr (bindingMgr c) a = None"
    and "fst (WriteTo env p a c) = Ret (n, None)"
  shows "\<exists>msg. stun_Build env (indication_setters p a) = Inr msg
           \<and> last (snd (snd (WriteTo env p a c))) = EvWriteTo (Raw msg) (obs_TURNServerAddr env)
           \<and> obs_WriteTo env (Raw msg) (obs_TURNServerAddr env) = (n, None)"
proof -
  obtain r c1 evs where w: "WriteTo_permission env a c = (r, c1, evs)"
    by (cases "WriteTo_permission env a c") auto
  obtain r2 c3 evs2 where s: "WriteTo_send env p a c1 = (r2, c3, evs2)"
    by (cases "WriteTo_send env p a c1") auto
  from assms(2) w s have u: "is_UDPAddr a" and rn: "r = Ret None" and r2: "r2 = Ret (n, None)"
    by (auto simp add: WriteTo_def split: if_splits outcome.splits option.splits)
  from u w s rn have ev: "snd (snd (WriteTo env p a c)) = evs @ evs2"
    by (simp add: WriteTo_def)
  have "bindingMgr c1 = bindingMgr c"
    using WriteTo_permission_bindingMgr [of env a c] w by simp
  with assms(1) have b: "WriteTo_binding a c1
      = (length (store (bindingMgr c1)), c1\<lparr>bindingMgr := snd (create (bindingMgr c1) a)\<rparr>)"
    by (simp add: WriteTo_binding_created)
  let ?c2 = "c1\<lparr>bindingMgr := snd (create (bindingMgr c1) a)\<rparr>"
  let ?b = "length (store (bindingMgr c1))"
  have idle: "b_state (store (bindingMgr ?c2) ! ?b) = bindingStateIdle"
    by (simp add: store_create)
  obtain rb c4 evb where wb: "WriteTo_bind env ?b ?c2 = (rb, c4, evb)"
    by (cases "WriteTo_bind env ?b ?c2") auto
  obtain ri evi where wi: "WriteTo_indication env p a = (ri, evi)"
    by (cases "WriteTo_indication env p a") auto
  from s r2 b idle wb wi have ri: "ri = (n, None)" and e2: "evs2 = evb @ evi"
    by (cases rb; simp add: WriteTo_send_def)+
  from wi ri obtain msg where m: "stun_Build env (indication_setters p a) = Inr msg"
    and evi: "evi = [EvWriteTo (Raw msg) (obs_TURNServerAddr env)]"
    and o: "obs_WriteTo env (Raw msg) (obs_TURNServerAddr env) = (n, None)"
    by (auto simp add: WriteTo_indication_def split: sum.splits)
  from ev e2 evi m o show ?thesis
    by simp
qed

theorem first_write_sends_indication_witness:
  "findByAddr (bindingMgr demo_conn) peerA = None
   \<and> fst (WriteTo (demo_env tr_success) [1, 2, 3] peerA demo_conn) = Ret (39, None)
   \<and> binding_ready (fst (snd (WriteTo (demo_env tr_success) [1, 2, 3] peerA demo_conn))) peerA 16384
   \<and> (\<exists>msg. demo_Build (indication_setters [1, 2, 3] peerA) = Inr msg
         \<and> last (snd (snd (WriteTo (demo_env tr_success) [1, 2, 3] peerA demo_conn)))
             = EvWriteTo (Raw msg) demo_server)"
proof -
  have h1: "findByAddr (bindingMgr demo_conn) peerA = None"
    by (simp add: findByAddr_def demo_conn_simps)
  have h2: "fst (WriteTo (demo_env tr_success) [1, 2, 3] peerA demo_conn) = Ret (39, None)"
    by (simp add: WriteTo_defs demo_defs demo_conn_simps)
  have r: "binding_ready (fst (snd (WriteTo (demo_env tr_success) [1, 2, 3] peerA demo_conn))) peerA 16384"
    using bound_conn_simps(2)
    by (simp add: bound_conn_def [symmetric] binding_ready_def mgr_ready_def findByAddr_def)
  have e: "stun_Build (demo_env tr_success) = demo_Build"
    "obs_TURNServerAddr (demo_env tr_success) = demo_server"
    by (simp_all add: demo_env_def)
  show ?thesis
    using h1 h2 r first_write_sends_indication [OF h1 h2] unfolding e by blast
qed

text \<open>Property X4. Once a read has seen the close signal, every read returns the closed-connection
  error at once, whatever is queued and whatever the timer did; and after Close the close
  case of the select can always proceed, so no read blocks for ever.\<close>

theorem ReadFrom_after_Close:
  assumes "\<not> closed c"
  shows "fst (ReadFrom now SelCloseCh p (fst (snd (Close env c))))
           = Returned 0 None (Some (closedConnError c))
       \<and> closed (snd (snd (ReadFrom now SelCloseCh p (fst (snd (Close env c))))))
       \<and> fst (ReadFrom now' sel p' (snd (snd (ReadFrom now SelCloseCh p (fst (snd (Close env c)))))))
           = Returned 0 None (Some (closedConnError c))"
  using assms
  by (simp add: ReadFrom_def Let_def Close_state closedConnError_def LocalAddr_def)

theorem ReadFrom_after_Close_witness:
  "\<not> closed queued_conn
   \<and> fst (ReadFrom 3 SelReadCh [0, 0, 0, 0, 0]
        (snd (snd (ReadFrom 2 SelCloseCh [] (fst (snd (Close (demo_env tr_success) queued_conn)))))))
       = Returned 0 None (Some (closedConnError queued_conn))"
proof -
  have h: "\<not> closed queued_conn"
    by (simp add: queued_conn_simps)
  show ?thesis
    using h ReadFrom_after_Close [OF h, of 2 "[]" "demo_env tr_success" 3 SelReadCh "[0, 0, 0, 0, 0]"]
    by simp
qed

lemma bind_transactions:
  "filter is_transaction (snd (snd (bind env c b))) =
     (case stun_Build env (bind_setters env c (store (bindingMgr c) ! b)) of
        Inl e \<Rightarrow> []
      | Inr m \<Rightarrow> [EvTransaction m (obs_TURNServerAddr env) False])"
  by (simp add: bind_def Let_def case_prod_beta split: sum.splits option.splits)

lemma WriteTo_bind_transactions:
  assumes "b_state (store (bindingMgr c) ! b) = bindingStateIdle"
  shows "filter is_transaction (snd (snd (WriteTo_bind env b c)))
           = filter is_transaction (snd (snd (bind env c b)))"
proof -
  obtain r c1 evs where b: "bind env c b = (r, c1, evs)"
    by (cases "bind env c b") auto
  show ?thesis
  proof (cases r)
    case (Panic s)
    with assms b show ?thesis by (simp add: WriteTo_bind_def)
  next
    case (Ret e)
    with assms b show ?thesis by (cases e) (simp_all add: WriteTo_bind_def)
  qed
qed

lemma WriteTo_indication_transactions:
  "filter is_transaction (snd (WriteTo_indication env p a)) = []"
  by (simp add: WriteTo_indication_def split: sum.splits)

lemma WriteTo_send_created_transactions:
  assumes "findByAddr (bindingMgr c) a = None"
  shows "filter is_transaction (snd (snd (WriteTo_send env p a c))) =
     (case stun_Build env (bind_setters env c
             \<lparr>b_addr = a,
              b_number = assignChannelNumber minChannelNumber (map fst (chanMap (bindingMgr c))),
              b_state = bindingStateIdle\<rparr>) of
        Inl e \<Rightarrow> []
      | Inr m \<Rightarrow> [EvTransaction m (obs_TURNServerAddr env) False])"
proof -
  let ?c2 = "c\<lparr>bindingMgr := snd (create (bindingMgr c) a)\<rparr>"
  let ?b = "length (store (bindingMgr c))"
  let ?bd = "\<lparr>b_addr = a,
              b_number = assignChannelNumber minChannelNumber (map fst (chanMap (bindingMgr c))),
              b_state = bindingStateIdle\<rparr>"
  have b: "WriteTo_binding a c = (?b, ?c2)"
    using assms by (simp add: WriteTo_binding_created)
  have bd: "store (bindingMgr ?c2) ! ?b = ?bd"
    by (simp add: store_create)
  have idle: "b_state (store (bindingMgr ?c2) ! ?b) = bindingStateIdle"
    by (simp add: store_create)
  have s: "bind_setters env ?c2 ?bd = bind_setters env c ?bd"
    by (simp add: bind_setters_def)
  obtain rb c4 evb where wb: "WriteTo_bind env ?b ?c2 = (rb, c4, evb)"
    by (cases "WriteTo_bind env ?b ?c2") auto
  have "filter is_transaction evb = filter is_transaction (snd (snd (bind env ?c2 ?b)))"
    using WriteTo_bind_transactions [OF idle, of env] wb by simp
  then have evb: "filter is_transaction evb =
     (case stun_Build env (bind_setters env c ?bd) of
        Inl e \<Rightarrow> []
      | Inr m \<Rightarrow> [EvTransaction m (obs_TURNServerAddr env) False])"
    unfolding bind_transactions bd s .
  have "filter is_transaction (snd (snd (WriteTo_send env p a c))) = filter is_transaction evb"
    using b idle wb WriteTo_indication_transactions [of env p a]
    by (cases rb) (simp_all add: WriteTo_send_def case_prod_beta)
  with evb show ?thesis by simp
qed

text \<open>Property X5. One call at a time: the first write to a UDP peer address with neither
  a permission entry nor a binding performs exactly one create-permission transaction when
  its request can be built (none otherwise), followed by at most one channel-bind
  transaction, which is performed when the permission was granted and the channel-bind
  request can be built; it performs no other transaction.\<close>

theorem first_write_exchanges:
  assumes "is_UDPAddr a"
    and "permMap_find (permMap c) a = None"
    and "findByAddr (bindingMgr c) a = None"
  shows "filter is_transaction (snd (snd (WriteTo env p a c))) =
     (case stun_Build env (createPermissions_setters env c [a]) of
        Inl e \<Rightarrow> []
      | Inr m1 \<Rightarrow>
          EvTransaction m1 (obs_TURNServerAddr env) False
          # (if fst (WriteTo_permission env a c) = Ret None
             then (case stun_Build env (bind_setters env c
                          \<lparr>b_addr = a,
                           b_number = assignChannelNumber minChannelNumber
                                        (map fst (chanMap (bindingMgr c))),
                           b_state = bindingStateIdle\<rparr>) of
                     Inl e \<Rightarrow> []
                   | Inr m2 \<Rightarrow> [EvTransaction m2 (obs_TURNServerAddr env) False])
             else []))
     \<and> length (filter is_transaction (snd (snd (WriteTo env p a c)))) \<le> 2"
proof -
  obtain r c1 evs where w: "WriteTo_permission env a c = (r, c1, evs)"
    by (cases "WriteTo_permission env a c") auto
  have evs: "evs = snd (createPermissions env c [a])"
    using WriteTo_permission_events [of c a env] assms(2) w by simp
  have m: "bindingMgr c1 = bindingMgr c"
    using WriteTo_permission_bindingMgr [of env a c] w by simp
  have n: "nonce c1 = nonce c" "integrity c1 = integrity c"
    using w
    by (auto simp add: WriteTo_permission_def case_prod_beta
        split: option.splits outcome.splits perm_state.splits if_splits)
  have st: "bind_setters env c1 bd = bind_setters env c bd" for bd
    by (simp add: bind_setters_def n)
  have fe: "filter is_transaction evs = evs"
    by (simp add: evs createPermissions_events split: sum.splits)
  have "fst (WriteTo_permission env a c) = fst (createPermissions env c [a])"
    using assms(2)
    by (cases "createPermissions env c [a]")
      (auto simp add: WriteTo_permission_def split: outcome.splits option.splits)
  with w have rc: "r = fst (createPermissions env c [a])"
    by simp
  have ok: "stun_Build env (createPermissions_setters env c [a]) \<noteq> Inl e" if "r = Ret None" for e
    using that rc by (auto simp add: createPermissions_def)
  have send: "filter is_transaction (snd (snd (WriteTo_send env p a c1))) =
     (case stun_Build env (bind_setters env c
             \<lparr>b_addr = a,
              b_number = assignChannelNumber minChannelNumber (map fst (chanMap (bindingMgr c))),
              b_state = bindingStateIdle\<rparr>) of
        Inl e \<Rightarrow> []
      | Inr m \<Rightarrow> [EvTransaction m (obs_TURNServerAddr env) False])"
    using WriteTo_send_created_transactions [of c1 a env p] assms(3) by (simp add: m st)
  have tr: "filter is_transaction (snd (snd (WriteTo env p a c))) =
      evs @ (if r = Ret None then filter is_transaction (snd (snd (WriteTo_send env p a c1))) else [])"
  proof (cases r)
    case (Panic s)
    with w assms(1) fe show ?thesis by (simp add: WriteTo_def)
  next
    case (Ret e)
    with w assms(1) fe show ?thesis by (cases e) (simp_all add: WriteTo_def case_prod_beta)
  qed
  show ?thesis
  proof (cases "stun_Build env (createPermissions_setters env c [a])")
    case (Inl e)
    with ok have "r \<noteq> Ret None" by blast
    with Inl tr show ?thesis
      by (simp add: evs createPermissions_events)
  next
    case (Inr m1)
    with tr send w show ?thesis
      by (simp add: evs createPermissions_events split: sum.splits)
  qed
qed

theorem first_write_exchanges_witness:
  "is_UDPAddr peerA
   \<and> permMap_find (permMap demo_conn) peerA = None
   \<and> findByAddr (bindingMgr demo_conn) peerA = None
   \<and> map (\<lambda>e. case e of EvTransaction m d w \<Rightarrow> fst (Type m) | _ \<Rightarrow> MethodOther 0)
        (filter is_transaction (snd (snd (WriteTo (demo_env tr_success) [1, 2, 3] peerA demo_conn))))
       = [MethodCreatePermission, MethodChannelBind]"
proof -
  have h1: "is_UDPAddr peerA"
    by (simp add: peerA_def)
  have h2: "permMap_find (permMap demo_conn) peerA = None"
    by (simp add: permMap_find_def demo_conn_simps)
  have h3: "findByAddr (bindingMgr demo_conn) peerA = None"
    by (simp add: findByAddr_def demo_conn_simps)
  have p: "fst (WriteTo_permission (demo_env tr_success) peerA demo_conn) = Ret None"
    by (simp add: WriteTo_defs demo_defs demo_conn_simps)
  show ?thesis
    using h1 h2 h3
      first_write_exchanges [OF h1 h2 h3, of "demo_env tr_success" "[1, 2, 3]", unfolded p]
    by (simp add: demo_env_def demo_Build_def createPermissions_setters_def bind_setters_def
        NewType_def)
qed

lemma Reset_past:
  assumes "d \<le> 0"
  shows "Reset now d tm = tm\<lparr>t_expiry := None, t_C := True\<rparr>"
  using assms by (simp add: Reset_def fire_def timer_when_def)

lemma Until_past:
  assumes "instant t < instant wall"
  shows "Until wall t \<le> 0"
  using assms by (simp add: Until_def MinInt64_def MaxInt64_def)

lemma fire_keeps_tick:
  assumes "t_C tm"
  shows "t_C (fire now tm)"
  using assms by (simp add: fire_def split: option.splits)

lemma Reset_never:
  assumes "0 \<le> now" and "now \<le> now'" and "now' < MaxInt64"
  shows "\<not> t_C (fire now' (Reset now MaxInt64 tm))"
proof -
  have w: "timer_when now MaxInt64 = MaxInt64"
    using assms(1) by (simp add: timer_when_def MaxInt64_def)
  have r: "Reset now MaxInt64 tm = tm\<lparr>t_expiry := Some MaxInt64, t_C := False\<rparr>"
    using assms(2,3) by (simp add: Reset_def w fire_def)
  show ?thesis
    using assms(3) by (simp add: r fire_def)
qed

lemma SetReadDeadline_frame:
  "closed (snd (SetReadDeadline env now t c)) = closed c"
  "closeCh (snd (SetReadDeadline env now t c)) = closeCh c"
  "readCh (snd (SetReadDeadline env now t c)) = readCh c"
  "relayedAddr (snd (SetReadDeadline env now t c)) = relayedAddr c"
  by (simp_all add: SetReadDeadline_def Let_def)

lemma SetReadDeadline_past:
  assumes "t \<noteq> noDeadline" and "instant t < instant (time_Now env)"
  shows "t_C (readTimer (snd (SetReadDeadline env now t c)))"
  using assms Reset_past [OF Until_past [OF assms(2)]] by (simp add: SetReadDeadline_def Let_def)

lemma ReadFrom_timer_ready:
  assumes "\<not> closed c" and "t_C (readTimer c)"
  shows "fst (ReadFrom now SelReadTimer p c) = Returned 0 None (Some (ioTimeoutError c))"
  using assms fire_keeps_tick [OF assms(2), of now]
  by (simp add: ReadFrom_def Let_def ioTimeoutError_def LocalAddr_def)

lemma ReadFrom_nothing_else:
  assumes "\<not> closed c" and "readCh c = []" and "\<not> closeCh c"
  shows "fst (ReadFrom now SelReadCh p c) = Blocked" and "fst (ReadFrom now SelCloseCh p c) = Blocked"
  using assms by (simp_all add: ReadFrom_def Let_def)

lemma Timeout_errors:
  "Timeout (ioTimeoutError c)" "\<not> Timeout (closedConnError c)" "\<not> Timeout ErrShortBuffer"
  by (simp_all add: ioTimeoutError_def closedConnError_def newTimeoutError_def)

text \<open>A read deadline in the past, on a connection not yet seen closed. The timer case of
  the select of \<open>ReadFrom\<close> can proceed at once, and the call that takes it returns a
  \<^verbatim>\<open>net.OpError\<close> around a \<^verbatim>\<open>timeoutError\<close>, whose \<^verbatim>\<open>Timeout()\<close> is true, while that of the
  closed-connection error and of the short-buffer error is not. When no datagram is
  queued and Close has not been called, no other case can proceed.\<close>

theorem past_read_deadline_times_out:
  assumes "\<not> closed c" and "t \<noteq> noDeadline" and "instant t < instant (time_Now env)"
  shows "fst (ReadFrom now' SelReadTimer p (snd (SetReadDeadline env now t c)))
           = Returned 0 None (Some (ioTimeoutError c))
       \<and> Timeout (ioTimeoutError c)
       \<and> \<not> Timeout (closedConnError c)
       \<and> \<not> Timeout ErrShortBuffer
       \<and> (readCh c = [] \<and> \<not> closeCh c \<longrightarrow>
             fst (ReadFrom now' SelReadCh p (snd (SetReadDeadline env now t c))) = Blocked
             \<and> fst (ReadFrom now' SelCloseCh p (snd (SetReadDeadline env now t c))) = Blocked)"
proof (intro conjI impI)
  let ?c' = "snd (SetReadDeadline env now t c)"
  have nc: "\<not> closed ?c'"
    using assms(1) by (simp add: SetReadDeadline_frame)
  have "ioTimeoutError ?c' = ioTimeoutError c"
    by (simp add: ioTimeoutError_def LocalAddr_def SetReadDeadline_frame)
  moreover have "t_C (readTimer ?c')"
    using assms(2,3) by (rule SetReadDeadline_past)
  ultimately show "fst (ReadFrom now' SelReadTimer p ?c') = Returned 0 None (Some (ioTimeoutError c))"
    using ReadFrom_timer_ready [OF nc] by simp
  show "Timeout (ioTimeoutError c)" "\<not> Timeout (closedConnError c)" "\<not> Timeout ErrShortBuffer"
    by (simp_all add: Timeout_errors)
  assume e: "readCh c = [] \<and> \<not> closeCh c"
  from ReadFrom_nothing_else [OF nc, of now' p] e
  show "fst (ReadFrom now' SelReadCh p ?c') = Blocked"
    and "fst (ReadFrom now' SelCloseCh p ?c') = Blocked"
    by (simp_all add: SetReadDeadline_frame)
qed

theorem past_read_deadline_times_out_witness:
  "\<not> closed demo_conn
   \<and> demo_past \<noteq> noDeadline
   \<and> instant demo_past < instant (time_Now (demo_env tr_success))
   \<and> fst (ReadFrom 10 SelReadTimer []
        (snd (SetReadDeadline (demo_env tr_success) 10 demo_past demo_conn)))
       = Returned 0 None (Some (ioTimeoutError demo_conn))
   \<and> Timeout (ioTimeoutError demo_conn)
   \<and> fst (ReadFrom 10 SelReadCh []
        (snd (SetReadDeadline (demo_env tr_success) 10 demo_past demo_conn))) = Blocked
   \<and> fst (ReadFrom 10 SelCloseCh []
        (snd (SetReadDeadline (demo_env tr_success) 10 demo_past demo_conn))) = Blocked"
proof -
  have h1: "\<not> closed demo_conn"
    by (simp add: demo_conn_simps)
  have h2: "demo_past \<noteq> noDeadline"
    by (simp add: demo_past_def noDeadline_def)
  have h3: "instant demo_past < instant (time_Now (demo_env tr_success))"
    by (simp add: demo_past_def demo_env_def demo_now_def)
  have e: "readCh demo_conn = [] \<and> \<not> closeCh demo_conn"
    by (simp add: demo_conn_simps)
  from past_read_deadline_times_out [OF h1 h2 h3, of 10 "[]" 10] e h1 h2 h3
  show ?thesis
    by blast
qed

text \<open>The zero deadline, on a connection not yet seen closed. After it has been set, the
  timer case of the select cannot proceed at any later reading of the runtime clock below
  the end of its range, whatever the timer held before: a tick of an earlier deadline is
  discarded.\<close>

theorem zero_read_deadline_never_fires:
  assumes "\<not> closed c" and "0 \<le> now" and "now \<le> now'" and "now' < MaxInt64"
  shows "fst (ReadFrom now' SelReadTimer p (snd (SetReadDeadline env now noDeadline c)))
           = Blocked"
  using assms Reset_never [OF assms(2-4), of "readTimer c"]
  by (simp add: ReadFrom_def SetReadDeadline_def Let_def)

theorem zero_read_deadline_never_fires_witness:
  "\<not> closed (snd (SetReadDeadline (demo_env tr_success) 10 demo_past demo_conn))
   \<and> (0 :: int) \<le> 20 \<and> (20 :: int) \<le> 3600 * Second \<and> 3600 * Second < MaxInt64
   \<and> fst (ReadFrom 15 SelReadTimer []
        (snd (SetReadDeadline (demo_env tr_success) 10 demo_past demo_conn)))
       = Returned 0 None (Some (ioTimeoutError demo_conn))
   \<and> fst (ReadFrom (3600 * Second) SelReadTimer []
        (snd (SetReadDeadline (demo_env tr_success) 20 noDeadline
           (snd (SetReadDeadline (demo_env tr_success) 10 demo_past demo_conn)))))
       = Blocked"
proof -
  let ?c = "snd (SetReadDeadline (demo_env tr_success) 10 demo_past demo_conn)"
  have h1: "\<not> closed ?c"
    by (simp add: SetReadDeadline_frame demo_conn_simps)
  have h2: "(0 :: int) \<le> 20"
    by simp
  have h3: "(20 :: int) \<le> 3600 * Second"
    by (simp add: Second_def)
  have h4: "3600 * Second < MaxInt64"
    by (simp add: Second_def MaxInt64_def)
  have r: "fst (ReadFrom 15 SelReadTimer [] ?c) = Returned 0 None (Some (ioTimeoutError demo_conn))"
    by (simp add: ReadFrom_def SetReadDeadline_def Let_def demo_conn_simps
      Reset_def fire_def timer_when_def Until_def noDeadline_def MaxInt64_def
      MinInt64_def ioTimeoutError_def LocalAddr_def demo_env_def demo_now_def demo_past_def)
  from zero_read_deadline_never_fires [OF h1 h2 h3 h4, of "[]" "demo_env tr_success"] h1 h2 h3 h4 r
  show ?thesis
    by blast
qed

end
